theory Spec2Isabelle
  imports Main "HOL-Library.Multiset"
begin

section \<open>Data model of the SU-MIMO evaluation script\<close>

text \<open>
  The script \<^verbatim>\<open>scratch/evaluate_11ay_su_mimo.cc\<close> is a set of callbacks bound to trace
  sources of the MAC layer, working on global variables. The globals become a record that
  every callback takes and returns; what a callback prints, writes to a trace stream or asks
  of the MAC layer is appended to a log held in the same record. Unsigned machine integers
  are natural numbers with the wrap-around written out. A \<^verbatim>\<open>double\<close> is a value of the
  type parameter \<open>'r\<close>, of which the priority queue needs a linear order only; the text of
  a floating-point number in a trace is kept symbolic.

  The scheduler runs one callback at a time, to its end. The set-up in \<^verbatim>\<open>main\<close> and the
  periodic \<^verbatim>\<open>CalculateThroughput\<close>, which changes none of the variables that the
  callbacks below use and writes to a stream of its own, are outside the model.
\<close>

type_synonym Mac48Address = nat
type_synonym AntennaID = nat
type_synonym SectorID = nat
type_synonym AWV_ID = nat

text \<open>Simulation time in ticks of the simulator's default resolution (nanoseconds).\<close>

type_synonym Time = int

definition MicroSeconds :: "int \<Rightarrow> Time" where
  "MicroSeconds n = n * 1000"

text \<open>
  Modelled from the spec: the simulator's \<^verbatim>\<open>Time\<close> class and its conversion
  \<^verbatim>\<open>Seconds\<close> are not in the source file. The spec gives the dwell time as 0.6
  time-units since simulation start; at nanosecond resolution \<^verbatim>\<open>Seconds (0.6)\<close> is
  this number of ticks.
\<close>

definition Seconds_0_6 :: Time where
  "Seconds_0_6 = 600000000"

definition u8 :: "nat \<Rightarrow> nat" where
  "u8 n = n mod 256"

definition u16 :: "nat \<Rightarrow> nat" where
  "u16 n = n mod 65536"

definition u32 :: "nat \<Rightarrow> nat" where
  "u32 n = n mod 4294967296"

datatype ChannelAccessPeriod =
  CHANNEL_ACCESS_BTI | CHANNEL_ACCESS_ABFT | CHANNEL_ACCESS_ATI
  | CHANNEL_ACCESS_BHI | CHANNEL_ACCESS_DTI

datatype WifiMacType = WIFI_MAC_QOSDATA | WIFI_MAC_OTHER

type_synonym ANTENNA_CONFIGURATION = "AntennaID \<times> SectorID"
type_synonym MIMO_ANTENNA_COMBINATIONS_LIST = "ANTENNA_CONFIGURATION list list"
type_synonym MIMO_AWV_CONFIGURATION = "(ANTENNA_CONFIGURATION \<times> AWV_ID) list"

text \<open>
  \<^verbatim>\<open>std::map\<close> containers are association lists in iteration (key) order. The
  feedback map is keyed by a triple whose components the callback reads with
  \<^verbatim>\<open>std::get<0>\<close>, \<^verbatim>\<open>std::get<1>\<close>, \<^verbatim>\<open>std::get<2>\<close>.
\<close>

type_synonym 'r MIMO_FEEDBACK_MAP = "((nat \<times> nat \<times> nat) \<times> 'r) list"
type_synonym 'r SU_MIMO_SNR_MAP = "((nat \<times> nat \<times> nat) \<times> 'r list) list"
type_synonym Antenna2SectorList = "(AntennaID \<times> SectorID list) list"

text \<open>
  \<^verbatim>\<open>MEASUREMENT_AWV_IDs\<close> is a pair of the Tx identifier and a map from Rx antenna to Rx
  identifier; of an entry of \<^verbatim>\<open>MIMO_SNR_LIST\<close> only the \<^verbatim>\<open>second\<close> component (the
  SNR vector) is read.
\<close>

type_synonym MEASUREMENT_AWV_IDs = "nat \<times> (nat \<times> nat) list"
type_synonym 'r MIMO_SNR_LIST = "'r list list"

text \<open>
  The observable state of a MAC object at the time of a callback, with the operations of its
  codebook that the callbacks consult. They are parameters: their code is outside the file.
\<close>

record 'r DmgWifiMac =
  GetAddress :: Mac48Address
  GetBssid :: Mac48Address
  IsAssociated :: bool
  GetTypeOfStation :: nat
  GetTotalAntennaIdList :: "AntennaID list"
  FindKBestCombinations :: "nat \<Rightarrow> nat \<Rightarrow> nat \<Rightarrow> 'r MIMO_FEEDBACK_MAP \<Rightarrow> MIMO_ANTENNA_COMBINATIONS_LIST"
  GetMimoConfigFromRxAwvId :: "(nat \<times> nat) list \<Rightarrow> Mac48Address \<Rightarrow> MIMO_AWV_CONFIGURATION"
  GetMimoConfigFromTxAwvId :: "nat \<Rightarrow> Mac48Address \<Rightarrow> MIMO_AWV_CONFIGURATION"

record NODE_IDS =
  srcNodeID :: nat
  dstNodeID :: nat

record 'r SLS_PARAMETERS = NODE_IDS +
  wifiMac :: "'r DmgWifiMac"

record 'r MIMO_PARAMETERS = NODE_IDS +
  srcWifiMac :: "'r DmgWifiMac"
  dstWifiMac :: "'r DmgWifiMac"

record SlsCompletionAttrbitutes =
  sectorID :: SectorID
  antennaID :: AntennaID
  peerStation :: Mac48Address
  accessPeriod :: ChannelAccessPeriod

text \<open>What a callback reads from the simulator while it runs.\<close>

record env =
  Now :: Time
  GetCurrentTraceIndex :: nat

subsection \<open>Output\<close>

text \<open>
  A line of a trace stream is the list of its comma-separated fields; a line reaches the
  stream at \<^verbatim>\<open>std::endl\<close>. \<open>Db x\<close> is the text of \<^verbatim>\<open>RatioToDb (x)\<close>; \<open>Blank\<close> is the
  empty field after a trailing comma.
\<close>

datatype 'r cell =
  Txt string
  | Indexed string nat
  | UInt nat
  | I64 int
  | Db 'r
  | Raw 'r
  | Blank

datatype 'r stream_op =
  CreateFileStream string
  | WriteLine string "'r cell list"

datatype msg =
  CompletedSls Mac48Address Mac48Address
  | BestTxAntennaConfiguration nat nat
  | Associated Mac48Address Mac48Address nat
  | ReportingSisoMeasurements Mac48Address Mac48Address Time
  | FinishedSisoPhase Mac48Address Mac48Address Time
  | ReportingMimoCandidates Mac48Address Mac48Address Time
  | ReportingMimoMeasurements Mac48Address Mac48Address Time
  | FinishedMimoPhase Mac48Address Mac48Address Time
  | InitiatingSuMimoBft Mac48Address Mac48Address Time

text \<open>
  Requests to the MAC layer, each with the address of the MAC object it is made on.
  \<open>Schedule_StartSuMimoBeamforming\<close> is the event handed to the scheduler with its delay.
\<close>

datatype mac_request =
  PrintSnrTable Mac48Address
  | Perform_TXSS_TXOP Mac48Address Mac48Address
  | Schedule_StartSuMimoBeamforming Time Mac48Address Mac48Address bool "AntennaID list" bool
  | AppendAwvsForSuMimoBFT_27 Mac48Address
  | StartSuMimoMimoPhase Mac48Address Mac48Address MIMO_ANTENNA_COMBINATIONS_LIST nat bool

subsection \<open>Global variables\<close>

record 'r world =
  csv :: bool
  kBestCombinations :: nat
  numberOfTxCombinationsRequested :: nat
  useAwvs :: bool
  tracesFolder :: string
  apNodeId :: nat
  macTxDataFailed :: nat
  transmittedPackets :: nat
  droppedPackets :: nat
  receivedPackets :: nat
  beamformedLinks :: nat
  firstDti :: bool
  suMimoCompleted :: bool
  cout :: "msg list"
  streams :: "'r stream_op list"
  requests :: "mac_request list"

text \<open>
  The values the globals are declared with, under the command-line settings of \<^verbatim>\<open>main\<close>.
\<close>

definition initial :: "bool \<Rightarrow> nat \<Rightarrow> nat \<Rightarrow> bool \<Rightarrow> string \<Rightarrow> nat \<Rightarrow> 'r world" where
  "initial csv_arg k n awvs folder ap =
     \<lparr>csv = csv_arg, kBestCombinations = k, numberOfTxCombinationsRequested = n,
      useAwvs = awvs, tracesFolder = folder, apNodeId = ap,
      macTxDataFailed = 0, transmittedPackets = 0, droppedPackets = 0, receivedPackets = 0,
      beamformedLinks = 0, firstDti = True, suMimoCompleted = False,
      cout = [], streams = [], requests = []\<rparr>"

section \<open>The phase sequencer\<close>

definition print :: "msg \<Rightarrow> 'r world \<Rightarrow> 'r world" where
  "print m w = w\<lparr>cout := cout w @ [m]\<rparr>"

definition write_line :: "string \<Rightarrow> 'r cell list \<Rightarrow> 'r world \<Rightarrow> 'r world" where
  "write_line f cs w = w\<lparr>streams := streams w @ [WriteLine f cs]\<rparr>"

definition create_file_stream :: "string \<Rightarrow> 'r world \<Rightarrow> 'r world" where
  "create_file_stream f w = w\<lparr>streams := streams w @ [CreateFileStream f]\<rparr>"

definition request :: "mac_request \<Rightarrow> 'r world \<Rightarrow> 'r world" where
  "request r w = w\<lparr>requests := requests w @ [r]\<rparr>"

text \<open>
  The header that \<^verbatim>\<open>main\<close> writes to the stream of the sector-sweep results, which it
  creates once and binds to the callback.
\<close>

definition sls_header :: "'r cell list" where
  "sls_header =
     [Txt ''SRC_ID'', Txt ''DST_ID'', Txt ''TRACE_IDX'', Txt ''ANTENNA_ID_1'', Txt ''SECTOR_ID_1'',
      Txt ''AWV_ID_1'', Txt ''ANTENNA_ID_2'', Txt ''SECTOR_ID_2'', Txt ''AWV_ID_2'', Txt ''ROLE'',
      Txt ''BSS_ID'', Txt ''SNR'', Txt ''Timestamp'']"

definition SLSCompleted ::
  "string \<Rightarrow> 'r SLS_PARAMETERS \<Rightarrow> SlsCompletionAttrbitutes \<Rightarrow> env \<Rightarrow> 'r world \<Rightarrow> 'r world" where
  "SLSCompleted stream parameters attributes e w =
     (let w1 = write_line stream
                 [UInt (u32 (srcNodeID parameters + 1)), UInt (u32 (dstNodeID parameters + 1)),
                  UInt (GetCurrentTraceIndex e),
                  UInt (u16 (sectorID attributes)), UInt (u16 (antennaID attributes)),
                  UInt (GetTypeOfStation (wifiMac parameters)),
                  UInt (u32 (apNodeId w + 1)),
                  I64 (Now e)] w
      in if \<not> csv w1
         then
           (let w2 = print (CompletedSls (GetAddress (wifiMac parameters)) (peerStation attributes)) w1;
                w3 = print (BestTxAntennaConfiguration (u16 (antennaID attributes))
                              (u16 (sectorID attributes))) w2;
                w4 = request (PrintSnrTable (GetAddress (wifiMac parameters))) w3
            in if accessPeriod attributes = CHANNEL_ACCESS_DTI
               then w4\<lparr>beamformedLinks := u8 (beamformedLinks w4 + 1)\<rparr>
               else w4)
         else w1)"

definition SuMimoMimoPhaseComplete ::
  "'r SLS_PARAMETERS \<Rightarrow> Mac48Address \<Rightarrow> env \<Rightarrow> 'r world \<Rightarrow> 'r world" where
  "SuMimoMimoPhaseComplete parameters from e w =
     (let w1 = print (FinishedMimoPhase (GetAddress (wifiMac parameters)) from (Now e)) w
      in w1\<lparr>suMimoCompleted := True\<rparr>)"

definition DataTransmissionIntervalStarted ::
  "'r DmgWifiMac \<Rightarrow> Mac48Address \<Rightarrow> Time \<Rightarrow> env \<Rightarrow> 'r world \<Rightarrow> 'r world" where
  "DataTransmissionIntervalStarted mac address dtiDuration e w =
     (let w1 = (if IsAssociated mac \<and> firstDti w
                then (request (Perform_TXSS_TXOP (GetAddress mac) (GetBssid mac)) w)
                       \<lparr>firstDti := False\<rparr>
                else w)
      in if beamformedLinks w1 = 2 \<and> Now e > Seconds_0_6 \<and> \<not> suMimoCompleted w1
         then
           (let w2 = print (InitiatingSuMimoBft (GetAddress mac) (GetBssid mac) (Now e)) w1;
                antennas = GetTotalAntennaIdList mac
            in request (Schedule_StartSuMimoBeamforming (MicroSeconds 3) (GetAddress mac)
                          (GetBssid mac) True antennas False) w2)
         else w1)"

subsection \<open>The counting callbacks\<close>

definition StationAssoicated ::
  "'r DmgWifiMac \<Rightarrow> Mac48Address \<Rightarrow> nat \<Rightarrow> 'r world \<Rightarrow> 'r world" where
  "StationAssoicated staMac address aid w =
     (if \<not> csv w then print (Associated (GetAddress staMac) address aid) w else w)"

definition MacTxDataFailed :: "'r world \<Rightarrow> 'r world" where
  "MacTxDataFailed w = w\<lparr>macTxDataFailed := (macTxDataFailed w + 1) mod 2 ^ 64\<rparr>"

definition PhyTxEnd :: "'r world \<Rightarrow> 'r world" where
  "PhyTxEnd w = w\<lparr>transmittedPackets := (transmittedPackets w + 1) mod 2 ^ 64\<rparr>"

definition PhyRxDrop :: "'r world \<Rightarrow> 'r world" where
  "PhyRxDrop w = w\<lparr>droppedPackets := (droppedPackets w + 1) mod 2 ^ 64\<rparr>"

definition PhyRxEnd :: "'r world \<Rightarrow> 'r world" where
  "PhyRxEnd w = w\<lparr>receivedPackets := (receivedPackets w + 1) mod 2 ^ 64\<rparr>"

definition MacRxOk :: "string \<Rightarrow> WifiMacType \<Rightarrow> Mac48Address \<Rightarrow> 'r \<Rightarrow> env \<Rightarrow> 'r world \<Rightarrow> 'r world" where
  "MacRxOk stream macType address snrValue e w =
     (if macType = WIFI_MAC_QOSDATA then write_line stream [I64 (Now e), Raw snrValue] w else w)"

section \<open>The trace exporter\<close>

datatype error = OutOfRange | EndIteratorDereference | DivisionByZero

text \<open>
  A callback that throws or runs into undefined behaviour ends the program: \<open>Inl (e, w)\<close>
  is the error with the globals and logs as they were at that point. A line that was not
  finished by \<^verbatim>\<open>std::endl\<close> is not part of the stream.
\<close>

type_synonym 'r outcome = "(error \<times> 'r world) + 'r world"

definition bnd :: "error + 'a \<Rightarrow> ('a \<Rightarrow> error + 'b) \<Rightarrow> error + 'b" where
  "bnd m f = (case m of Inl e \<Rightarrow> Inl e | Inr x \<Rightarrow> f x)"

text \<open>
  \<^verbatim>\<open>std::vector::at\<close> with an index computed in \<^verbatim>\<open>int\<close>: a negative index converts to
  a \<^verbatim>\<open>size_t\<close> beyond every size, so it throws as an index past the end does.
\<close>

definition at_int :: "'a list \<Rightarrow> int \<Rightarrow> error + 'a" where
  "at_int xs i = (if 0 \<le> i \<and> i < int (length xs) then Inr (xs ! nat i) else Inl OutOfRange)"

definition at_nat :: "'a list \<Rightarrow> nat \<Rightarrow> error + 'a" where
  "at_nat xs i = (if i < length xs then Inr (xs ! i) else Inl OutOfRange)"

fun collect :: "('a \<Rightarrow> error + 'b) \<Rightarrow> 'a list \<Rightarrow> error + 'b list" where
  "collect f [] = Inr []"
| "collect f (x # xs) = bnd (f x) (\<lambda>y. bnd (collect f xs) (\<lambda>ys. Inr (y # ys)))"

text \<open>\<^verbatim>\<open>std::to_string\<close> of an unsigned number.\<close>

fun to_string :: "nat \<Rightarrow> string" where
  "to_string n =
     (if n < 10 then [''0123456789'' ! n]
      else to_string (n div 10) @ [''0123456789'' ! (n mod 10)])"

text \<open>
  \<^verbatim>\<open>for (uint8_t i = ...; cond; i++)\<close>: the counter wraps at 256, so the loop need not
  end; \<open>None\<close> is the loop that does not return.
\<close>

partial_function (option) for_u8 ::
  "(nat \<Rightarrow> bool) \<Rightarrow> (nat \<Rightarrow> 'a \<Rightarrow> 'a) \<Rightarrow> nat \<Rightarrow> 'a \<Rightarrow> 'a option" where
  "for_u8 cond body i acc =
     (if cond i then for_u8 cond body (u8 (i + 1)) (body i acc) else Some acc)"

declare for_u8.simps [code]

subsection \<open>SISO phase\<close>

definition siso_header :: "'r cell list" where
  "siso_header =
     [Txt ''SRC_ID'', Txt ''DST_ID'', Txt ''TRACE_IDX'', Txt ''RX_ANTENNA_ID'',
      Txt ''TX_ANTENNA_ID'', Txt ''TX_SECTOR_ID'', Txt ''SNR'', Txt ''Timestamp'']"

text \<open>
  The inner \<^verbatim>\<open>while\<close> loop over one SNR list; \<open>d\<close> is \<^verbatim>\<open>std::distance (start, snrIt)\<close>.
  The division \<^verbatim>\<open>awv / edmgTrnN\<close> is undefined for a zero divisor.
\<close>

fun siso_list ::
  "'r SLS_PARAMETERS \<Rightarrow> env \<Rightarrow> string \<Rightarrow> nat \<times> nat \<times> nat \<Rightarrow> nat \<Rightarrow> nat \<Rightarrow> 'r list \<Rightarrow>
   'r world \<Rightarrow> 'r outcome" where
  "siso_list parameters e f key edmgTrnN d [] w = Inr w"
| "siso_list parameters e f key edmgTrnN d (snr # rest) w =
     (let awv = u32 (d + 1)
      in if edmgTrnN = 0 then Inl (DivisionByZero, w)
         else siso_list parameters e f key edmgTrnN (d + 1) rest
                (write_line f
                   [UInt (u32 (srcNodeID parameters + 1)), UInt (u32 (dstNodeID parameters + 1)),
                    UInt (GetCurrentTraceIndex e),
                    UInt (u16 (fst (snd key))), UInt (u16 (snd (snd key))),
                    UInt (u16 (awv div edmgTrnN)), Db snr,
                    I64 (Now e)] w))"

fun siso_map ::
  "'r SLS_PARAMETERS \<Rightarrow> env \<Rightarrow> string \<Rightarrow> nat \<Rightarrow> 'r SU_MIMO_SNR_MAP \<Rightarrow> 'r world \<Rightarrow> 'r outcome" where
  "siso_map parameters e f edmgTrnN [] w = Inr w"
| "siso_map parameters e f edmgTrnN (it # rest) w =
     (case siso_list parameters e f (fst it) edmgTrnN 0 (snd it) w of
        Inl x \<Rightarrow> Inl x
      | Inr w' \<Rightarrow> siso_map parameters e f edmgTrnN rest w')"

definition SuMimoSisoPhaseMeasurements ::
  "'r SLS_PARAMETERS \<Rightarrow> Mac48Address \<Rightarrow> 'r SU_MIMO_SNR_MAP \<Rightarrow> nat \<Rightarrow> env \<Rightarrow> 'r world \<Rightarrow>
   'r outcome" where
  "SuMimoSisoPhaseMeasurements parameters from measurementsMap edmgTrnN e w =
     (let w1 = print (ReportingSisoMeasurements (GetAddress (wifiMac parameters)) from (Now e)) w;
          f = tracesFolder w1 @ ''SuMimoSisoPhaseMeasurements_''
                @ to_string (u32 (srcNodeID parameters + 1)) @ ''.csv'';
          w2 = create_file_stream f w1;
          w3 = write_line f siso_header w2
      in siso_map parameters e f edmgTrnN measurementsMap w3)"

fun feedback_rows ::
  "'r SLS_PARAMETERS \<Rightarrow> env \<Rightarrow> string \<Rightarrow> 'r MIMO_FEEDBACK_MAP \<Rightarrow> 'r world \<Rightarrow> 'r world" where
  "feedback_rows parameters e f [] w = w"
| "feedback_rows parameters e f (it # rest) w =
     feedback_rows parameters e f rest
       (write_line f
          [UInt (u32 (srcNodeID parameters + 1)), UInt (u32 (dstNodeID parameters + 1)),
           UInt (GetCurrentTraceIndex e),
           UInt (u16 (fst (snd (fst it)))), UInt (u16 (fst (fst it))),
           UInt (u16 (snd (snd (fst it)))), Db (snd it),
           I64 (Now e)] w)"

text \<open>
  The codebook that \<^verbatim>\<open>main\<close> installs is the parametric one, so the dynamic cast before
  \<^verbatim>\<open>AppendAwvsForSuMimoBFT_27\<close> succeeds.
\<close>

definition SuMimoSisoPhaseComplete ::
  "'r SLS_PARAMETERS \<Rightarrow> Mac48Address \<Rightarrow> 'r MIMO_FEEDBACK_MAP \<Rightarrow> nat \<Rightarrow> nat \<Rightarrow> env \<Rightarrow>
   'r world \<Rightarrow> 'r world" where
  "SuMimoSisoPhaseComplete parameters from feedbackMap numberOfTxAntennas numberOfRxAntennas e w =
     (let w1 = print (FinishedSisoPhase (GetAddress (wifiMac parameters)) from (Now e)) w;
          f = tracesFolder w1 @ ''SuMimoSisoPhaseResults_''
                @ to_string (u32 (srcNodeID parameters + 1)) @ ''.csv'';
          w2 = create_file_stream f w1;
          w3 = write_line f siso_header w2;
          w4 = feedback_rows parameters e f feedbackMap w3;
          mimoCandidates = FindKBestCombinations (wifiMac parameters) (kBestCombinations w4)
                             numberOfTxAntennas numberOfRxAntennas feedbackMap;
          w5 = (if useAwvs w4
                then request (AppendAwvsForSuMimoBFT_27 (GetAddress (wifiMac parameters))) w4
                else w4)
      in request (StartSuMimoMimoPhase (GetAddress (wifiMac parameters)) from mimoCandidates
                    (numberOfTxCombinationsRequested w5) (useAwvs w5)) w5)"

subsection \<open>MIMO candidates\<close>

text \<open>
  The header of a candidates table: the literal, two fields per antenna written by the
  \<^verbatim>\<open>uint8_t\<close> loop from 1 to the number of antennas, and the empty field left by the last
  comma.
\<close>

definition candidates_header :: "nat \<Rightarrow> 'r cell list option" where
  "candidates_header numberOfAntennas =
     map_option (\<lambda>cs. cs @ [Blank])
       (for_u8 (\<lambda>i. i \<le> numberOfAntennas)
          (\<lambda>i cs. cs @ [Indexed ''ANTENNA_ID'' (u16 i), Indexed ''SECTOR_ID'' (u16 i)])
          1 [Txt ''SRC_ID'', Txt ''DST_ID'', Txt ''TRACE_IDX''])"

text \<open>
  One row: the inner loop over the map reads \<^verbatim>\<open>it->second.at (i)\<close> of every antenna.
\<close>

definition candidates_row ::
  "'r SLS_PARAMETERS \<Rightarrow> env \<Rightarrow> Antenna2SectorList \<Rightarrow> nat \<Rightarrow> error + 'r cell list" where
  "candidates_row parameters e candidates i =
     bnd (collect (\<lambda>it. bnd (at_nat (snd it) i) (\<lambda>s. Inr [UInt (u16 (fst it)), UInt (u16 s)]))
            candidates)
       (\<lambda>css. Inr ([UInt (u32 (srcNodeID parameters + 1)), UInt (u32 (dstNodeID parameters + 1)),
                    UInt (GetCurrentTraceIndex e)] @ concat css @ [Blank]))"

text \<open>
  \<^verbatim>\<open>for (uint16_t i = 0; i < numberOfCandidates; i++)\<close>: the counter stays below the
  16-bit bound, so it does not wrap.
\<close>

function candidates_rows ::
  "'r SLS_PARAMETERS \<Rightarrow> env \<Rightarrow> string \<Rightarrow> Antenna2SectorList \<Rightarrow> nat \<Rightarrow> nat \<Rightarrow> 'r world \<Rightarrow>
   'r outcome" where
  "candidates_rows parameters e f candidates numberOfCandidates i w =
     (if i < numberOfCandidates
      then (case candidates_row parameters e candidates i of
              Inl err \<Rightarrow> Inl (err, w)
            | Inr row \<Rightarrow> candidates_rows parameters e f candidates numberOfCandidates (i + 1)
                          (write_line f row w))
      else Inr w)"
  by pat_completeness auto
termination
  by (relation "measure (\<lambda>(parameters, e, f, candidates, n, i, w). n - i)") auto

text \<open>
  One table: the stream is created, the header written, and the number of candidates read
  from the first entry of the map, which an empty map does not have.
\<close>

definition candidates_table ::
  "'r SLS_PARAMETERS \<Rightarrow> env \<Rightarrow> string \<Rightarrow> nat \<Rightarrow> Antenna2SectorList \<Rightarrow> 'r world \<Rightarrow>
   'r outcome option" where
  "candidates_table parameters e f numberOfAntennas candidates w =
     (let w1 = create_file_stream f w
      in case candidates_header numberOfAntennas of
           None \<Rightarrow> None
         | Some header \<Rightarrow>
             (let w2 = write_line f header w1
              in case candidates of
                   [] \<Rightarrow> Some (Inl (EndIteratorDereference, w2))
                 | first # others \<Rightarrow>
                     Some (candidates_rows parameters e f candidates
                             (u16 (length (snd first))) 0 w2)))"

definition SuMimoMimoCandidatesSelected ::
  "'r SLS_PARAMETERS \<Rightarrow> Mac48Address \<Rightarrow> Antenna2SectorList \<Rightarrow> Antenna2SectorList \<Rightarrow> env \<Rightarrow>
   'r world \<Rightarrow> 'r outcome option" where
  "SuMimoMimoCandidatesSelected parameters from txCandidates rxCandidates e w =
     (let w1 = print (ReportingMimoCandidates (GetAddress (wifiMac parameters)) from (Now e)) w;
          numberOfAntennas = u8 (length txCandidates)
      in case candidates_table parameters e
                (tracesFolder w1 @ ''SuMimoMimoTxCandidates_''
                   @ to_string (u32 (srcNodeID parameters + 1)) @ ''.csv'')
                numberOfAntennas txCandidates w1 of
           None \<Rightarrow> None
         | Some (Inl x) \<Rightarrow> Some (Inl x)
         | Some (Inr w2) \<Rightarrow>
             candidates_table parameters e
               (tracesFolder w2 @ ''SuMimoMimoRxCandidates_''
                  @ to_string (u32 (srcNodeID parameters + 1)) @ ''.csv'')
               numberOfAntennas rxCandidates w2)"

subsection \<open>MIMO phase measurements\<close>

text \<open>
  Modelled from the spec: the type \<^verbatim>\<open>SNR_MEASUREMENT_AWV_IDs_QUEUE\<close> is declared outside
  the source file. The spec describes it as a max-heap of measurements keyed by the minimum
  stream SNR, with no order mandated among equal keys. The queue is the list of its
  entries; \<open>top_q\<close> is the first entry with the greatest key and \<open>pop_q\<close> removes it.
\<close>

type_synonym 'r SNR_MEASUREMENT_AWV_IDs_QUEUE = "('r \<times> MEASUREMENT_AWV_IDs) list"

fun top_q :: "('k::linorder \<times> 'v) list \<Rightarrow> 'k \<times> 'v" where
  "top_q [x] = x"
| "top_q (x # y # ys) = (let t = top_q (y # ys) in if fst x < fst t then t else x)"

definition pop_q :: "('k::linorder \<times> 'v) list \<Rightarrow> ('k \<times> 'v) list" where
  "pop_q q = remove1 (top_q q) q"

definition mimo_header :: "nat \<Rightarrow> nat \<Rightarrow> 'r cell list option" where
  "mimo_header nTxAntennas nRxAntennas =
     (case for_u8 (\<lambda>i. i \<le> nTxAntennas)
             (\<lambda>i cs. cs @ [Indexed ''TX_ANTENNA_ID'' (u16 i), Indexed ''TX_SECTOR_ID'' (u16 i),
                            Indexed ''TX_AWV_ID'' (u16 i)])
             1 [Txt ''SRC_ID'', Txt ''DST_ID'', Txt ''TRACE_IDX''] of
        None \<Rightarrow> None
      | Some cs1 \<Rightarrow>
          (case for_u8 (\<lambda>i. i \<le> nRxAntennas)
                  (\<lambda>i cs. cs @ [Indexed ''RX_ANTENNA_ID'' (u16 i), Indexed ''RX_SECTOR_ID'' (u16 i),
                                 Indexed ''RX_AWV_ID'' (u16 i)])
                  1 cs1 of
             None \<Rightarrow> None
           | Some cs2 \<Rightarrow>
               map_option (\<lambda>cs. cs @ [Txt ''min_Stream_SNR''])
                 (for_u8 (\<lambda>i. i < nRxAntennas * nTxAntennas) (\<lambda>i cs. cs @ [Txt ''SNR'']) 0 cs2)))"

definition config_cells :: "MIMO_AWV_CONFIGURATION \<Rightarrow> nat \<Rightarrow> error + 'r cell list" where
  "config_cells combination i =
     bnd (at_nat combination i)
       (\<lambda>c. Inr [UInt (u16 (fst (fst c))), UInt (u16 (snd (fst c))), UInt (u16 (snd c))])"

text \<open>
  The two nested loops over the SNR matrix visit the Rx index \<open>j\<close> in the order of the list
  given, with the running \<^verbatim>\<open>uint8_t snrIndex\<close>.
\<close>

fun snr_cells :: "'r MIMO_SNR_LIST \<Rightarrow> nat list \<Rightarrow> nat \<Rightarrow> error + 'r cell list" where
  "snr_cells measurements [] snrIndex = Inr []"
| "snr_cells measurements (j # js) snrIndex =
     bnd (at_nat measurements j) (\<lambda>m.
     bnd (at_nat m snrIndex) (\<lambda>x.
     bnd (snr_cells measurements js (u8 (snrIndex + 1))) (\<lambda>cs. Inr (Db x # cs))))"

definition mimo_row ::
  "'r MIMO_PARAMETERS \<Rightarrow> Mac48Address \<Rightarrow> 'r MIMO_SNR_LIST \<Rightarrow> nat \<Rightarrow> nat \<Rightarrow> nat \<Rightarrow> env \<Rightarrow>
   'r \<times> MEASUREMENT_AWV_IDs \<Rightarrow> error + 'r cell list" where
  "mimo_row parameters from mimoMeasurements nTxAntennas nRxAntennas rxCombinationsTested e t =
     (let awvId = snd t;
          rxCombination = GetMimoConfigFromRxAwvId (srcWifiMac parameters) (snd awvId) from;
          txCombination = GetMimoConfigFromTxAwvId (dstWifiMac parameters) (fst awvId)
                            (GetAddress (srcWifiMac parameters));
          txId = fst awvId
      in bnd (collect (\<lambda>rxId. at_int mimoMeasurements
                         ((int txId - 1) * int rxCombinationsTested + int (snd rxId) - 1))
                (snd awvId)) (\<lambda>measurements.
         bnd (collect (config_cells txCombination) [0..<nTxAntennas]) (\<lambda>tx.
         bnd (collect (config_cells rxCombination) [0..<nRxAntennas]) (\<lambda>rx.
         bnd (snr_cells measurements (concat (replicate nTxAntennas [0..<nRxAntennas])) 0) (\<lambda>snrs.
         Inr ([UInt (u32 (srcNodeID parameters + 1)), UInt (u32 (dstNodeID parameters + 1)),
               UInt (GetCurrentTraceIndex e)] @ concat tx @ concat rx @ snrs @ [Db (fst t)]))))))"

text \<open>The \<^verbatim>\<open>while (!minSnr.empty ())\<close> loop.\<close>

function drain ::
  "'r MIMO_PARAMETERS \<Rightarrow> Mac48Address \<Rightarrow> 'r MIMO_SNR_LIST \<Rightarrow> nat \<Rightarrow> nat \<Rightarrow> nat \<Rightarrow> env \<Rightarrow> string \<Rightarrow>
   ('r::linorder) SNR_MEASUREMENT_AWV_IDs_QUEUE \<Rightarrow> 'r world \<Rightarrow> 'r outcome" where
  "drain parameters from mimoMeasurements nTx nRx rxCombinationsTested e f minSnr w =
     (if minSnr \<noteq> []
      then (case mimo_row parameters from mimoMeasurements nTx nRx rxCombinationsTested e
                   (top_q minSnr) of
              Inl err \<Rightarrow> Inl (err, w)
            | Inr row \<Rightarrow> drain parameters from mimoMeasurements nTx nRx rxCombinationsTested e f
                          (pop_q minSnr) (write_line f row w))
      else Inr w)"
  by pat_completeness auto
termination
proof (relation "measure (\<lambda>(parameters, from, ms, nTx, nRx, r, e, f, minSnr, w). length minSnr)")
  show "wf (measure (\<lambda>(parameters, from, ms, nTx, nRx, r, e, f, minSnr, w). length minSnr))"
    by simp
next
  fix parameters :: "('r::linorder) MIMO_PARAMETERS" and "from" :: Mac48Address
    and mimoMeasurements :: "'r MIMO_SNR_LIST" and nTx nRx rxCombinationsTested :: nat
    and e :: env and f :: string and minSnr :: "'r SNR_MEASUREMENT_AWV_IDs_QUEUE"
    and w :: "'r world" and row :: "'r cell list"
  assume ne: "minSnr \<noteq> []"
  have mem: "top_q q \<in> set q" if "q \<noteq> []" for q :: "'r SNR_MEASUREMENT_AWV_IDs_QUEUE"
    using that by (induction q rule: top_q.induct) (auto simp: Let_def)
  have "length (pop_q minSnr) < length minSnr"
    using mem [OF ne] ne by (simp add: pop_q_def length_remove1)
  then show "((parameters, from, mimoMeasurements, nTx, nRx, rxCombinationsTested, e, f,
               pop_q minSnr, write_line f row w),
              (parameters, from, mimoMeasurements, nTx, nRx, rxCombinationsTested, e, f,
               minSnr, w))
             \<in> measure (\<lambda>(parameters, from, ms, nTx, nRx, r, e, f, minSnr, w). length minSnr)"
    by simp
qed

definition SuMimoMimoPhaseMeasurements ::
  "'r MIMO_PARAMETERS \<Rightarrow> Mac48Address \<Rightarrow> 'r MIMO_SNR_LIST \<Rightarrow>
   ('r::linorder) SNR_MEASUREMENT_AWV_IDs_QUEUE \<Rightarrow> bool \<Rightarrow> nat \<Rightarrow> nat \<Rightarrow> nat \<Rightarrow> env \<Rightarrow>
   'r world \<Rightarrow> 'r outcome option" where
  "SuMimoMimoPhaseMeasurements parameters from mimoMeasurements minSnr differentRxConfigs
       nTxAntennas nRxAntennas rxCombinationsTested e w =
     (let w1 = print (ReportingMimoMeasurements (GetAddress (srcWifiMac parameters)) from (Now e)) w;
          f = tracesFolder w1 @ ''SuMimoMimoPhaseMeasurements_''
                @ to_string (u32 (srcNodeID parameters + 1)) @ ''.csv'';
          w2 = create_file_stream f w1
      in case mimo_header nTxAntennas nRxAntennas of
           None \<Rightarrow> None
         | Some header \<Rightarrow>
             Some (drain parameters from mimoMeasurements nTxAntennas nRxAntennas
                     rxCombinationsTested e f minSnr (write_line f header w2)))"

section \<open>Runs of the script\<close>

datatype 'r event =
  EvSLSCompleted string "'r SLS_PARAMETERS" SlsCompletionAttrbitutes
  | EvDTIStarted "'r DmgWifiMac" Mac48Address Time
  | EvSisoPhaseMeasurements "'r SLS_PARAMETERS" Mac48Address "'r SU_MIMO_SNR_MAP" nat
  | EvSisoPhaseCompleted "'r SLS_PARAMETERS" Mac48Address "'r MIMO_FEEDBACK_MAP" nat nat
  | EvMimoCandidatesSelected "'r SLS_PARAMETERS" Mac48Address Antenna2SectorList Antenna2SectorList
  | EvMimoPhaseMeasurements "'r MIMO_PARAMETERS" Mac48Address "'r MIMO_SNR_LIST"
      "'r SNR_MEASUREMENT_AWV_IDs_QUEUE" bool nat nat nat
  | EvMimoPhaseCompleted "'r SLS_PARAMETERS" Mac48Address
  | EvAssoc "'r DmgWifiMac" Mac48Address nat
  | EvMacTxDataFailed
  | EvPhyTxEnd
  | EvPhyRxDrop
  | EvPhyRxEnd
  | EvMacRxOk string WifiMacType Mac48Address 'r

text \<open>One callback, with what it reads from the simulator.\<close>

fun step :: "('r::linorder) event \<Rightarrow> env \<Rightarrow> 'r world \<Rightarrow> 'r outcome option" where
  "step (EvSLSCompleted stream p a) e w = Some (Inr (SLSCompleted stream p a e w))"
| "step (EvDTIStarted mac address d) e w =
     Some (Inr (DataTransmissionIntervalStarted mac address d e w))"
| "step (EvSisoPhaseMeasurements p from m n) e w = Some (SuMimoSisoPhaseMeasurements p from m n e w)"
| "step (EvSisoPhaseCompleted p from m nTx nRx) e w =
     Some (Inr (SuMimoSisoPhaseComplete p from m nTx nRx e w))"
| "step (EvMimoCandidatesSelected p from tx rx) e w = SuMimoMimoCandidatesSelected p from tx rx e w"
| "step (EvMimoPhaseMeasurements p from ms q d nTx nRx r) e w =
     SuMimoMimoPhaseMeasurements p from ms q d nTx nRx r e w"
| "step (EvMimoPhaseCompleted p from) e w = Some (Inr (SuMimoMimoPhaseComplete p from e w))"
| "step (EvAssoc mac address aid) e w = Some (Inr (StationAssoicated mac address aid w))"
| "step EvMacTxDataFailed e w = Some (Inr (MacTxDataFailed w))"
| "step EvPhyTxEnd e w = Some (Inr (PhyTxEnd w))"
| "step EvPhyRxDrop e w = Some (Inr (PhyRxDrop w))"
| "step EvPhyRxEnd e w = Some (Inr (PhyRxEnd w))"
| "step (EvMacRxOk stream t address snr) e w = Some (Inr (MacRxOk stream t address snr e w))"

text \<open>
  The scheduler delivers callbacks one after the other; the run ends at the first callback
  that does not return.
\<close>

fun run :: "(('r::linorder) event \<times> env) list \<Rightarrow> 'r world \<Rightarrow> 'r outcome option" where
  "run [] w = Some (Inr w)"
| "run (ev # evs) w =
     (case step (fst ev) (snd ev) w of
        None \<Rightarrow> None
      | Some (Inl x) \<Rightarrow> Some (Inl x)
      | Some (Inr w') \<Rightarrow> run evs w')"

definition final :: "'r outcome \<Rightarrow> 'r world" where
  "final r = (case r of Inl x \<Rightarrow> snd x | Inr w \<Rightarrow> w)"

section \<open>Observations on runs\<close>

text \<open>
  What a callback adds to the three logs: the world \<open>w\<close> with messages, stream operations
  and requests appended.
\<close>

definition logged ::
  "'r world \<Rightarrow> msg list \<Rightarrow> 'r stream_op list \<Rightarrow> mac_request list \<Rightarrow> 'r world" where
  "logged w ms ops rs =
     w\<lparr>cout := cout w @ ms, streams := streams w @ ops, requests := requests w @ rs\<rparr>"

text \<open>The part of a log of \<open>w'\<close> that was added after \<open>w\<close>.\<close>

definition issued :: "'r world \<Rightarrow> 'r world \<Rightarrow> mac_request list" where
  "issued w w' = drop (length (requests w)) (requests w')"

definition written :: "'r world \<Rightarrow> 'r world \<Rightarrow> 'r stream_op list" where
  "written w w' = drop (length (streams w)) (streams w')"

definition printed :: "'r world \<Rightarrow> 'r world \<Rightarrow> msg list" where
  "printed w w' = drop (length (cout w)) (cout w')"

fun is_StartSuMimoBeamforming :: "mac_request \<Rightarrow> bool" where
  "is_StartSuMimoBeamforming (Schedule_StartSuMimoBeamforming t m peer i antennas u) = True"
| "is_StartSuMimoBeamforming r = False"

fun is_Perform_TXSS_TXOP :: "mac_request \<Rightarrow> bool" where
  "is_Perform_TXSS_TXOP (Perform_TXSS_TXOP m peer) = True"
| "is_Perform_TXSS_TXOP r = False"

text \<open>The sector-sweep completions of a run that report the data transmission interval.\<close>

fun is_dti_result :: "'r event \<times> env \<Rightarrow> bool" where
  "is_dti_result (EvSLSCompleted stream p a, e) = (accessPeriod a = CHANNEL_ACCESS_DTI)"
| "is_dti_result ev = False"

definition dti_results :: "('r event \<times> env) list \<Rightarrow> nat" where
  "dti_results evs = length (filter is_dti_result evs)"

text \<open>The lines among stream operations, in the order written.\<close>

fun lines :: "'r stream_op list \<Rightarrow> 'r cell list list" where
  "lines [] = []"
| "lines (CreateFileStream f # ops) = lines ops"
| "lines (WriteLine f cs # ops) = cs # lines ops"

text \<open>
  Every line goes to the stream created last, \<open>cur\<close> being the stream open at the start.
\<close>

fun well_blocked :: "string option \<Rightarrow> 'r stream_op list \<Rightarrow> bool" where
  "well_blocked cur [] = True"
| "well_blocked cur (CreateFileStream f # ops) = well_blocked (Some f) ops"
| "well_blocked cur (WriteLine f cs # ops) = (cur = Some f \<and> well_blocked cur ops)"

fun is_CreateFileStream :: "'r stream_op \<Rightarrow> bool" where
  "is_CreateFileStream (CreateFileStream f) = True"
| "is_CreateFileStream (WriteLine f cs) = False"

text \<open>The keys whose dB value stands in the last column of the lines.\<close>

fun snr_of_line :: "'r cell list \<Rightarrow> 'r list" where
  "snr_of_line [] = []"
| "snr_of_line (c # cs) = (case last (c # cs) of Db k \<Rightarrow> [k] | _ \<Rightarrow> [])"

definition min_Stream_SNR_column :: "'r stream_op list \<Rightarrow> 'r list" where
  "min_Stream_SNR_column ops = concat (map snr_of_line (lines ops))"

text \<open>The callbacks of the SU-MIMO phases that write a trace table.\<close>

fun is_su_mimo_trace :: "'r event \<Rightarrow> bool" where
  "is_su_mimo_trace (EvSisoPhaseMeasurements p from m n) = True"
| "is_su_mimo_trace (EvSisoPhaseCompleted p from m nTx nRx) = True"
| "is_su_mimo_trace (EvMimoCandidatesSelected p from tx rx) = True"
| "is_su_mimo_trace (EvMimoPhaseMeasurements p from ms q d nTx nRx r) = True"
| "is_su_mimo_trace ev = False"

text \<open>The row of one entry of the feedback map.\<close>

fun feedback_row ::
  "'r SLS_PARAMETERS \<Rightarrow> env \<Rightarrow> (nat \<times> nat \<times> nat) \<times> 'r \<Rightarrow> 'r cell list" where
  "feedback_row p e it =
     [UInt (u32 (srcNodeID p + 1)), UInt (u32 (dstNodeID p + 1)),
      UInt (GetCurrentTraceIndex e),
      UInt (u16 (fst (snd (fst it)))), UInt (u16 (fst (fst it))),
      UInt (u16 (snd (snd (fst it)))), Db (snd it),
      I64 (Now e)]"

text \<open>
  The later world has the settings of the earlier one, its logs continue the earlier logs,
  and the two flags have moved in one direction only.
\<close>

definition extends :: "'r world \<Rightarrow> 'r world \<Rightarrow> bool" where
  "extends w w' \<longleftrightarrow>
     csv w' = csv w \<and> kBestCombinations w' = kBestCombinations w
     \<and> numberOfTxCombinationsRequested w' = numberOfTxCombinationsRequested w
     \<and> useAwvs w' = useAwvs w \<and> tracesFolder w' = tracesFolder w \<and> apNodeId w' = apNodeId w
     \<and> (firstDti w' \<longrightarrow> firstDti w) \<and> (suMimoCompleted w \<longrightarrow> suMimoCompleted w')
     \<and> (\<exists>ms. cout w' = cout w @ ms) \<and> (\<exists>ops. streams w' = streams w @ ops)
     \<and> (\<exists>rs. requests w' = requests w @ rs)"

text \<open>The request and the condition of the second \<^verbatim>\<open>if\<close> of the DTI callback.\<close>

definition start_request :: "'r DmgWifiMac \<Rightarrow> mac_request" where
  "start_request mac =
     Schedule_StartSuMimoBeamforming (MicroSeconds 3) (GetAddress mac) (GetBssid mac) True
       (GetTotalAntennaIdList mac) False"

definition trigger :: "env \<Rightarrow> 'r world \<Rightarrow> bool" where
  "trigger e w \<longleftrightarrow> beamformedLinks w = 2 \<and> Now e > Seconds_0_6 \<and> \<not> suMimoCompleted w"

text \<open>What one callback asks of the MAC layer, and the sequencer state it leaves.\<close>

fun requests_of :: "'r event \<Rightarrow> env \<Rightarrow> 'r world \<Rightarrow> mac_request list" where
  "requests_of (EvDTIStarted mac a d) e w =
     (if IsAssociated mac \<and> firstDti w
      then [Perform_TXSS_TXOP (GetAddress mac) (GetBssid mac)] else [])
     @ (if trigger e w then [start_request mac] else [])"
| "requests_of (EvSLSCompleted stream p a) e w =
     (if csv w then [] else [PrintSnrTable (GetAddress (wifiMac p))])"
| "requests_of (EvSisoPhaseCompleted p from m nTx nRx) e w =
     (if useAwvs w then [AppendAwvsForSuMimoBFT_27 (GetAddress (wifiMac p))] else [])
     @ [StartSuMimoMimoPhase (GetAddress (wifiMac p)) from
          (FindKBestCombinations (wifiMac p) (kBestCombinations w) nTx nRx m)
          (numberOfTxCombinationsRequested w) (useAwvs w)]"
| "requests_of ev e w = []"

fun links_after :: "'r event \<Rightarrow> 'r world \<Rightarrow> nat" where
  "links_after (EvSLSCompleted stream p a) w =
     (if \<not> csv w \<and> accessPeriod a = CHANNEL_ACCESS_DTI
      then u8 (beamformedLinks w + 1) else beamformedLinks w)"
| "links_after ev w = beamformedLinks w"

fun firstDti_after :: "'r event \<Rightarrow> 'r world \<Rightarrow> bool" where
  "firstDti_after (EvDTIStarted mac a d) w = (firstDti w \<and> \<not> IsAssociated mac)"
| "firstDti_after ev w = firstDti w"

fun completed_after :: "'r event \<Rightarrow> 'r world \<Rightarrow> bool" where
  "completed_after (EvMimoPhaseCompleted p from) w = True"
| "completed_after ev w = suMimoCompleted w"

subsection \<open>The trace files\<close>

text \<open>
  The files behind the streams. \<^verbatim>\<open>CreateFileStream\<close> opens a \<^verbatim>\<open>std::ofstream\<close> on a
  path; the open mode is a default argument in the declaration of
  \<^verbatim>\<open>AsciiTraceHelper::CreateFileStream\<close>, which is outside the source file, so the mode is
  a parameter here. Opening with \<^verbatim>\<open>std::ios::out\<close> empties an existing file, opening with
  \<^verbatim>\<open>std::ios::app\<close> keeps what it holds, and both create a missing file. A line written
  through a stream goes to the end of its file. \<open>replay\<close> performs stream operations on
  the files, \<open>contents\<close> is what a file holds (nothing when it does not exist).
\<close>

datatype openmode = ios_out | ios_app

type_synonym 'r files = "string \<Rightarrow> 'r cell list list option"

definition contents :: "'r files \<Rightarrow> string \<Rightarrow> 'r cell list list" where
  "contents fs f = (case fs f of None \<Rightarrow> [] | Some ls \<Rightarrow> ls)"

text \<open>What the opening of a stream on \<open>f\<close> leaves of the file.\<close>

definition kept :: "openmode \<Rightarrow> 'r files \<Rightarrow> string \<Rightarrow> 'r cell list list" where
  "kept mode fs f = (case mode of ios_out \<Rightarrow> [] | ios_app \<Rightarrow> contents fs f)"

fun perform :: "openmode \<Rightarrow> 'r files \<Rightarrow> 'r stream_op \<Rightarrow> 'r files" where
  "perform mode fs (CreateFileStream f) = fs(f \<mapsto> kept mode fs f)"
| "perform mode fs (WriteLine f cs) = fs(f \<mapsto> contents fs f @ [cs])"

definition replay :: "openmode \<Rightarrow> 'r files \<Rightarrow> 'r stream_op list \<Rightarrow> 'r files" where
  "replay mode fs ops = foldl (perform mode) fs ops"

text \<open>The paths opened by stream operations, and the lines written to one path.\<close>

fun created :: "'r stream_op list \<Rightarrow> string list" where
  "created [] = []"
| "created (CreateFileStream f # ops) = f # created ops"
| "created (WriteLine f cs # ops) = created ops"

fun lines_to :: "string \<Rightarrow> 'r stream_op list \<Rightarrow> 'r cell list list" where
  "lines_to f [] = []"
| "lines_to f (CreateFileStream g # ops) = lines_to f ops"
| "lines_to f (WriteLine g cs # ops) = (if g = f then cs # lines_to f ops else lines_to f ops)"


definition table :: "string \<Rightarrow> 'r cell list \<Rightarrow> 'r cell list list \<Rightarrow> 'r stream_op list" where
  "table f h rows = CreateFileStream f # WriteLine f h # map (WriteLine f) rows"


subsection \<open>A station, a session and some events\<close>

definition example_mac :: "int DmgWifiMac" where
  "example_mac =
     \<lparr>GetAddress = 2, GetBssid = 1, IsAssociated = True, GetTypeOfStation = 0,
      GetTotalAntennaIdList = [1, 2],
      FindKBestCombinations = (\<lambda>k nTx nRx m. take k [[(1, 3), (2, 4)]]),
      GetMimoConfigFromRxAwvId = (\<lambda>ids a. [((1, 3), 0), ((2, 4), 0)]),
      GetMimoConfigFromTxAwvId = (\<lambda>i a. [((1, 5), 0), ((2, 6), 0)])\<rparr>"

definition example_parameters :: "int SLS_PARAMETERS" where
  "example_parameters = \<lparr>srcNodeID = 1, dstNodeID = 0, wifiMac = example_mac\<rparr>"

definition example_mimo_parameters :: "int MIMO_PARAMETERS" where
  "example_mimo_parameters =
     \<lparr>srcNodeID = 1, dstNodeID = 0, srcWifiMac = example_mac, dstWifiMac = example_mac\<rparr>"

text \<open>A time after the dwell time: 0.7 s.\<close>

definition example_env :: env where
  "example_env = \<lparr>Now = 700000000, GetCurrentTraceIndex = 0\<rparr>"

definition example_attributes :: SlsCompletionAttrbitutes where
  "example_attributes =
     \<lparr>sectorID = 5, antennaID = 1, peerStation = 1, accessPeriod = CHANNEL_ACCESS_DTI\<rparr>"

text \<open>The globals at the start of \<^verbatim>\<open>main\<close> under the default command line.\<close>

definition example_world :: "int world" where
  "example_world = initial False 10 10 False ''Traces/'' 0"

definition example_sls :: "int event \<times> env" where
  "example_sls =
     (EvSLSCompleted ''slsResults.csv'' example_parameters example_attributes, example_env)"

definition example_dti :: "int event \<times> env" where
  "example_dti = (EvDTIStarted example_mac 1 0, example_env)"

text \<open>The session after one, two and three sector sweeps completed in the DTI.\<close>

definition example_after_1 :: "int world" where
  "example_after_1 =
     SLSCompleted ''slsResults.csv'' example_parameters example_attributes example_env
       example_world"

definition example_after_2 :: "int world" where
  "example_after_2 =
     SLSCompleted ''slsResults.csv'' example_parameters example_attributes example_env
       example_after_1"

definition example_after_3 :: "int world" where
  "example_after_3 =
     SLSCompleted ''slsResults.csv'' example_parameters example_attributes example_env
       example_after_2"

text \<open>The session once the MIMO phase has completed, and further events.\<close>

definition example_completed :: "int world" where
  "example_completed = SuMimoMimoPhaseComplete example_parameters 1 example_env example_after_2"

definition example_feedback :: "int MIMO_FEEDBACK_MAP" where
  "example_feedback = [((1, 1, 3), 20), ((2, 2, 4), 12)]"

definition example_siso_completed :: "int event \<times> env" where
  "example_siso_completed =
     (EvSisoPhaseCompleted example_parameters 1 example_feedback 2 2, example_env)"

definition example_mimo_completed :: "int event \<times> env" where
  "example_mimo_completed = (EvMimoPhaseCompleted example_parameters 1, example_env)"

definition example_csv_world :: "int world" where
  "example_csv_world = initial True 10 10 False ''Traces/'' 0"

text \<open>Events of the SISO and MIMO phases of the example session.\<close>

definition example_measurements :: "int event \<times> env" where
  "example_measurements =
     (EvSisoPhaseMeasurements example_parameters 1 [((0, 1, 2), [10, 20])] 1, example_env)"


definition example_queue :: "int SNR_MEASUREMENT_AWV_IDs_QUEUE" where
  "example_queue =
     [(5, (1, [(1, 1), (2, 2)])), (12, (1, [(1, 2), (2, 1)])), (5, (1, [(1, 1), (2, 1)]))]"

definition example_mimo_measurements :: "int event \<times> env" where
  "example_mimo_measurements =
     (EvMimoPhaseMeasurements example_mimo_parameters 1 [[1, 2, 3, 4], [5, 6, 7, 8]] example_queue
        False 2 2 2, example_env)"

definition example_candidates :: "int event \<times> env" where
  "example_candidates =
     (EvMimoCandidatesSelected example_parameters 1 [(1, [3, 4]), (2, [5, 6])] [(1, [7]), (2, [8])],
      example_env)"

definition example_equal_queue :: "int SNR_MEASUREMENT_AWV_IDs_QUEUE" where
  "example_equal_queue = [(7, (1, [(1, 1), (2, 2)])), (7, (1, [(1, 2), (2, 1)]))]"

declare to_string.simps [simp del]
declare candidates_rows.simps [simp del]
declare drain.simps [simp del]

section \<open>Properties of the callbacks\<close>

subsection \<open>The logs\<close>

lemma final_Inr [simp]: "final (Inr w) = w"
  by (simp add: final_def)

lemma final_Inl [simp]: "final (Inl (x, w)) = w"
  by (simp add: final_def)

lemma logged_fields [simp]:
  "csv (logged w ms ops rs) = csv w"
  "kBestCombinations (logged w ms ops rs) = kBestCombinations w"
  "numberOfTxCombinationsRequested (logged w ms ops rs) = numberOfTxCombinationsRequested w"
  "useAwvs (logged w ms ops rs) = useAwvs w"
  "tracesFolder (logged w ms ops rs) = tracesFolder w"
  "apNodeId (logged w ms ops rs) = apNodeId w"
  "beamformedLinks (logged w ms ops rs) = beamformedLinks w"
  "firstDti (logged w ms ops rs) = firstDti w"
  "suMimoCompleted (logged w ms ops rs) = suMimoCompleted w"
  "cout (logged w ms ops rs) = cout w @ ms"
  "streams (logged w ms ops rs) = streams w @ ops"
  "requests (logged w ms ops rs) = requests w @ rs"
  by (simp_all add: logged_def)

lemma logged_nil [simp]: "logged w [] [] [] = w"
  by (simp add: logged_def)

lemma logged_logged [simp]:
  "logged (logged w ms ops rs) ms' ops' rs' = logged w (ms @ ms') (ops @ ops') (rs @ rs')"
  by (simp add: logged_def)

lemma print_logged: "print m w = logged w [m] [] []"
  by (simp add: print_def logged_def)

lemma write_line_logged: "write_line f cs w = logged w [] [WriteLine f cs] []"
  by (simp add: write_line_def logged_def)

lemma create_file_stream_logged: "create_file_stream f w = logged w [] [CreateFileStream f] []"
  by (simp add: create_file_stream_def logged_def)

lemma request_logged: "request r w = logged w [] [] [r]"
  by (simp add: request_def logged_def)

lemmas log_simps = print_logged write_line_logged create_file_stream_logged request_logged

lemma issued_logged [simp]: "issued w (logged w ms ops rs) = rs"
  by (simp add: issued_def)

lemma written_logged [simp]: "written w (logged w ms ops rs) = ops"
  by (simp add: written_def)

lemma printed_logged [simp]: "printed w (logged w ms ops rs) = ms"
  by (simp add: printed_def)

lemma lines_append [simp]: "lines (xs @ ys) = lines xs @ lines ys"
  by (induction xs rule: lines.induct) simp_all

lemma lines_map_WriteLine [simp]: "lines (map (WriteLine f) rows) = rows"
  by (induction rows) simp_all

lemma well_blocked_map_WriteLine [simp]: "well_blocked (Some f) (map (WriteLine f) rows)"
  by (induction rows) simp_all

subsection \<open>What the trace callbacks append\<close>

lemma siso_list_logged:
  "\<exists>rows. final (siso_list p e f key n d xs w) = logged w [] (map (WriteLine f) rows) []
          \<and> (\<forall>row \<in> set rows. row \<noteq> [] \<and> last row = I64 (Now e))"
proof (induction xs arbitrary: d w)
  case Nil
  show ?case by (intro exI [of _ "[]"]) simp
next
  case (Cons x xs)
  show ?case
  proof (cases "n = 0")
    case True
    then show ?thesis by (intro exI [of _ "[]"]) simp
  next
    case False
    let ?row = "[UInt (u32 (srcNodeID p + 1)), UInt (u32 (dstNodeID p + 1)),
                    UInt (GetCurrentTraceIndex e),
                    UInt (u16 (fst (snd key))), UInt (u16 (snd (snd key))),
                    UInt (u16 (u32 (d + 1) div n)), Db x,
                    I64 (Now e)]"
    from Cons.IH [where d = "d + 1" and w = "write_line f ?row w"]
    obtain rows where r: "final (siso_list p e f key n (d + 1) xs (write_line f ?row w))
          = logged (write_line f ?row w) [] (map (WriteLine f) rows) []"
        "\<forall>row \<in> set rows. row \<noteq> [] \<and> last row = I64 (Now e)" by blast
    show ?thesis
      using False r
      by (intro exI [of _ "?row # rows"]) (simp add: Let_def write_line_logged)
  qed
qed

lemma siso_map_logged:
  "\<exists>rows. final (siso_map p e f n m w) = logged w [] (map (WriteLine f) rows) []
          \<and> (\<forall>row \<in> set rows. row \<noteq> [] \<and> last row = I64 (Now e))"
proof (induction m arbitrary: w)
  case Nil
  show ?case by (intro exI [of _ "[]"]) simp
next
  case (Cons it m)
  obtain rows where r: "final (siso_list p e f (fst it) n 0 (snd it) w) = logged w [] (map (WriteLine f) rows) []"
        "\<forall>row \<in> set rows. row \<noteq> [] \<and> last row = I64 (Now e)"
    using siso_list_logged by blast
  show ?case
  proof (cases "siso_list p e f (fst it) n 0 (snd it) w")
    case (Inl x)
    then show ?thesis using r by (intro exI [of _ rows]) (cases x, simp)
  next
    case (Inr w')
    from Cons.IH [of w'] obtain rows' where r': "final (siso_map p e f n m w') = logged w' [] (map (WriteLine f) rows') []"
        "\<forall>row \<in> set rows'. row \<noteq> [] \<and> last row = I64 (Now e)" by blast
    from r(1) Inr have "w' = logged w [] (map (WriteLine f) rows) []" by simp
    with r(2) r' Inr
    show ?thesis by (intro exI [of _ "rows @ rows'"]) auto
  qed
qed

lemma SuMimoSisoPhaseMeasurements_logged:
  "\<exists>rows. final (SuMimoSisoPhaseMeasurements p from m n e w)
      = logged w [ReportingSisoMeasurements (GetAddress (wifiMac p)) from (Now e)]
          (CreateFileStream (tracesFolder w @ ''SuMimoSisoPhaseMeasurements_''
                @ to_string (u32 (srcNodeID p + 1)) @ ''.csv'')
           # WriteLine (tracesFolder w @ ''SuMimoSisoPhaseMeasurements_''
                @ to_string (u32 (srcNodeID p + 1)) @ ''.csv'') siso_header
           # map (WriteLine (tracesFolder w @ ''SuMimoSisoPhaseMeasurements_''
                @ to_string (u32 (srcNodeID p + 1)) @ ''.csv'')) rows) []
        \<and> (\<forall>row \<in> set rows. row \<noteq> [] \<and> last row = I64 (Now e))"
proof -
  let ?f = "tracesFolder w @ ''SuMimoSisoPhaseMeasurements_''
                @ to_string (u32 (srcNodeID p + 1)) @ ''.csv''"
  let ?w3 = "logged w [ReportingSisoMeasurements (GetAddress (wifiMac p)) from (Now e)]
               [CreateFileStream ?f, WriteLine ?f siso_header] []"
  have eq: "SuMimoSisoPhaseMeasurements p from m n e w = siso_map p e ?f n m ?w3"
    by (simp add: SuMimoSisoPhaseMeasurements_def Let_def log_simps)
  obtain rows where "final (siso_map p e ?f n m ?w3) = logged ?w3 [] (map (WriteLine ?f) rows) []"
        "\<forall>row \<in> set rows. row \<noteq> [] \<and> last row = I64 (Now e)"
    using siso_map_logged by blast
  then show ?thesis unfolding eq by (intro exI [of _ rows]) simp
qed

lemma feedback_rows_logged:
  "feedback_rows p e f m w = logged w [] (map (WriteLine f) (map (feedback_row p e) m)) []"
  by (induction m arbitrary: w) (simp_all add: write_line_logged)

lemma SuMimoSisoPhaseComplete_logged:
  "SuMimoSisoPhaseComplete p from m nTx nRx e w
     = logged w [FinishedSisoPhase (GetAddress (wifiMac p)) from (Now e)]
         (CreateFileStream (tracesFolder w @ ''SuMimoSisoPhaseResults_''
                @ to_string (u32 (srcNodeID p + 1)) @ ''.csv'')
           # WriteLine (tracesFolder w @ ''SuMimoSisoPhaseResults_''
                @ to_string (u32 (srcNodeID p + 1)) @ ''.csv'') siso_header
           # map (WriteLine (tracesFolder w @ ''SuMimoSisoPhaseResults_''
                @ to_string (u32 (srcNodeID p + 1)) @ ''.csv'')) (map (feedback_row p e) m))
         ((if useAwvs w then [AppendAwvsForSuMimoBFT_27 (GetAddress (wifiMac p))] else [])
          @ [StartSuMimoMimoPhase (GetAddress (wifiMac p)) from
               (FindKBestCombinations (wifiMac p) (kBestCombinations w) nTx nRx m)
               (numberOfTxCombinationsRequested w) (useAwvs w)])"
  by (simp add: SuMimoSisoPhaseComplete_def Let_def log_simps feedback_rows_logged)

lemma well_blocked_WriteLines_append [simp]:
  "well_blocked (Some f) (map (WriteLine f) rows @ ops) = well_blocked (Some f) ops"
  by (induction rows) simp_all

text \<open>The \<^verbatim>\<open>uint8_t\<close> loop ends when its condition fails before the counter wraps.\<close>

lemma for_u8_upto:
  "i \<le> m \<Longrightarrow> m < 256 \<Longrightarrow> \<not> c m \<Longrightarrow> (\<forall>j. i \<le> j \<and> j < m \<longrightarrow> c j) \<Longrightarrow>
   for_u8 c b i acc = Some (fold b [i..<m] acc)"
proof (induction "m - i" arbitrary: i acc)
  case 0
  then have "i = m" by simp
  with 0 show ?case by (subst for_u8.simps) simp
next
  case (Suc k)
  then have lt: "i < m" by simp
  with Suc.prems have ci: "c i" by simp
  from lt Suc.prems have u: "u8 (i + 1) = i + 1" by (simp add: u8_def)
  have "for_u8 c b (i + 1) (b i acc) = Some (fold b [i + 1..<m] (b i acc))"
    using Suc.hyps(2) Suc.prems lt by (intro Suc.hyps(1)) auto
  with ci u lt show ?case
    by (subst for_u8.simps) (simp add: upt_conv_Cons)
qed

lemma candidates_header_shape:
  "candidates_header n = Some h \<Longrightarrow> h \<noteq> [] \<and> last h = Blank"
  by (auto simp: candidates_header_def)


lemma bnd_Inr_iff: "bnd m f = Inr y \<longleftrightarrow> (\<exists>x. m = Inr x \<and> f x = Inr y)"
  by (cases m) (simp_all add: bnd_def)

lemma bnd_Inl_iff: "bnd m f = Inl e \<longleftrightarrow> m = Inl e \<or> (\<exists>x. m = Inr x \<and> f x = Inl e)"
  by (cases m) (simp_all add: bnd_def)

lemma candidates_row_shape:
  "candidates_row p e c i = Inr row \<Longrightarrow> row \<noteq> [] \<and> last row = Blank"
  by (auto simp: candidates_row_def bnd_Inr_iff)

lemma candidates_rows_logged:
  "\<exists>rows. final (candidates_rows p e f c n i w) = logged w [] (map (WriteLine f) rows) []
          \<and> (\<forall>row \<in> set rows. row \<noteq> [] \<and> last row = Blank)"
proof (induction p e f c n i w rule: candidates_rows.induct)
  case (1 p e f c n i w)
  show ?case
  proof (cases "i < n")
    case False
    then show ?thesis by (intro exI [of _ "[]"]) (simp add: candidates_rows.simps)
  next
    case True
    show ?thesis
    proof (cases "candidates_row p e c i")
      case (Inl err)
      with True show ?thesis by (intro exI [of _ "[]"]) (simp add: candidates_rows.simps)
    next
      case (Inr row)
      from "1.IH" [OF True Inr] obtain rows where
        r: "final (candidates_rows p e f c n (i + 1) (write_line f row w))
              = logged (write_line f row w) [] (map (WriteLine f) rows) []"
           "\<forall>row \<in> set rows. row \<noteq> [] \<and> last row = Blank" by blast
      from True Inr r candidates_row_shape [OF Inr] show ?thesis
        by (intro exI [of _ "row # rows"]) (simp add: candidates_rows.simps [of p e f c n i w] write_line_logged)
    qed
  qed
qed

lemma candidates_table_logged:
  assumes "candidates_table p e f n c (w :: 'r world) = Some res"
  shows "\<exists>h rows. final res = logged w [] (CreateFileStream f # WriteLine f h # map (WriteLine f) rows) []
          \<and> h \<noteq> [] \<and> last h = Blank \<and> (\<forall>row \<in> set rows. row \<noteq> [] \<and> last row = Blank)"
proof -
  from assms obtain h where h: "candidates_header n = Some (h :: 'r cell list)"
    by (auto simp: candidates_table_def Let_def split: option.splits)
  let ?w2 = "logged w [] [CreateFileStream f, WriteLine f h] []"
  note hs = candidates_header_shape [OF h]
  show ?thesis
  proof (cases c)
    case Nil
    with assms h have "res = Inl (EndIteratorDereference, ?w2)"
      by (simp add: candidates_table_def Let_def log_simps)
    with hs show ?thesis by (intro exI [of _ h] exI [of _ "[]"]) simp
  next
    case (Cons first others)
    with assms h have res: "res = candidates_rows p e f c (u16 (length (snd first))) 0 ?w2"
      by (simp add: candidates_table_def Let_def log_simps)
    obtain rows where "final (candidates_rows p e f c (u16 (length (snd first))) 0 ?w2)
         = logged ?w2 [] (map (WriteLine f) rows) []"
         "\<forall>row \<in> set rows. row \<noteq> [] \<and> last row = Blank"
      using candidates_rows_logged by blast
    with hs res show ?thesis by (intro exI [of _ h] exI [of _ rows]) simp
  qed
qed

lemma SuMimoMimoCandidatesSelected_logged:
  assumes "SuMimoMimoCandidatesSelected p from tx rx e (w :: 'r world) = Some res"
  shows "\<exists>ops. final res = logged w [ReportingMimoCandidates (GetAddress (wifiMac p)) from (Now e)] ops []
          \<and> (\<exists>f rest. ops = CreateFileStream f # rest) \<and> well_blocked None ops
          \<and> (\<forall>cs \<in> set (lines ops). cs \<noteq> [] \<and> last cs = Blank)"
proof -
  define w1 where "w1 = logged w [ReportingMimoCandidates (GetAddress (wifiMac p)) from (Now e)] [] []"
  define ft where "ft = tracesFolder w @ ''SuMimoMimoTxCandidates_'' @ to_string (u32 (srcNodeID p + 1)) @ ''.csv''"
  define fr where "fr = tracesFolder w @ ''SuMimoMimoRxCandidates_'' @ to_string (u32 (srcNodeID p + 1)) @ ''.csv''"
  have unf: "SuMimoMimoCandidatesSelected p from tx rx e w =
       (case candidates_table p e ft (u8 (length tx)) tx w1 of
           None \<Rightarrow> None
         | Some (Inl x) \<Rightarrow> Some (Inl x)
         | Some (Inr w2) \<Rightarrow>
             candidates_table p e
               (tracesFolder w2 @ ''SuMimoMimoRxCandidates_''
                  @ to_string (u32 (srcNodeID p + 1)) @ ''.csv'')
               (u8 (length tx)) rx w2)"
    by (simp add: SuMimoMimoCandidatesSelected_def Let_def w1_def ft_def print_logged)
  from assms obtain r1 where r1: "candidates_table p e ft (u8 (length tx)) tx w1 = Some r1"
    unfolding unf by (auto split: option.splits)
  from candidates_table_logged [OF r1] obtain h rows where
    t1: "final r1 = logged w1 [] (CreateFileStream ft # WriteLine ft h # map (WriteLine ft) rows) []"
        "h \<noteq> []" "last h = Blank" "\<forall>row \<in> set rows. row \<noteq> [] \<and> last row = Blank" by blast
  show ?thesis
  proof (cases r1)
    case (Inl x)
    with assms r1 have "res = r1" unfolding unf by simp
    with t1 show ?thesis unfolding w1_def
      by (intro exI [of _ "CreateFileStream ft # WriteLine ft h # map (WriteLine ft) rows"]) auto
  next
    case (Inr w2)
    with t1(1) have w2: "w2 = logged w1 [] (CreateFileStream ft # WriteLine ft h # map (WriteLine ft) rows) []"
      by simp
    have tf: "tracesFolder w2 = tracesFolder w" by (simp add: w2 w1_def)
    from assms r1 Inr have r2: "candidates_table p e fr (u8 (length tx)) rx w2 = Some res"
      unfolding unf fr_def by (simp add: tf)
    from candidates_table_logged [OF r2] obtain h' rows' where
      t2: "final res = logged w2 [] (CreateFileStream fr # WriteLine fr h' # map (WriteLine fr) rows') []"
        "h' \<noteq> []" "last h' = Blank" "\<forall>row \<in> set rows'. row \<noteq> [] \<and> last row = Blank"
      by blast
    from t1 t2 show ?thesis unfolding w2 w1_def
      by (intro exI [of _ "(CreateFileStream ft # WriteLine ft h # map (WriteLine ft) rows)
            @ (CreateFileStream fr # WriteLine fr h' # map (WriteLine fr) rows')"]) auto
  qed
qed

text \<open>The queue: the top is an entry, with the greatest key.\<close>

lemma top_q_mem: "q \<noteq> [] \<Longrightarrow> top_q q \<in> set q"
  by (induction q rule: top_q.induct) (auto simp: Let_def)

lemma top_q_greatest: "x \<in> set q \<Longrightarrow> fst x \<le> fst (top_q q)"
proof (induction q rule: top_q.induct)
  case (1 y)
  then show ?case by simp
next
  case (2 a b bs)
  then show ?case by (auto simp: Let_def)
next
  case 3
  then show ?case by simp
qed

lemma mset_keys_pop_q:
  assumes "q \<noteq> []"
  shows "mset (map fst q) = add_mset (fst (top_q q)) (mset (map fst (pop_q q)))"
proof -
  have "mset q = add_mset (top_q q) (mset (pop_q q))"
    using top_q_mem [OF assms] by (simp add: pop_q_def)
  then have "mset (map fst q) = image_mset fst (add_mset (top_q q) (mset (pop_q q)))"
    by (metis mset_map)
  then show ?thesis by simp
qed

lemma mimo_row_shape:
  "mimo_row p from ms nTx nRx r e t = Inr row \<Longrightarrow> row \<noteq> [] \<and> last row = Db (fst t)"
  by (auto simp: mimo_row_def Let_def bnd_Inr_iff)

lemma drain_logged:
  "\<exists>rows ks. final (drain p from ms nTx nRx r e f q w) = logged w [] (map (WriteLine f) rows) []
      \<and> (\<forall>row \<in> set rows. row \<noteq> []) \<and> map last rows = map Db ks
      \<and> sorted_wrt (\<lambda>a b. a \<ge> b) ks \<and> mset ks \<subseteq># mset (map fst q)
      \<and> ((\<exists>w'. drain p from ms nTx nRx r e f q w = Inr w') \<longrightarrow> mset ks = mset (map fst q))"
proof (induction p "from" ms nTx nRx r e f q w rule: drain.induct)
  case (1 p "from" ms nTx nRx r e f q w)
  show ?case
  proof (cases "q = []")
    case True
    then show ?thesis
      by (intro exI [of _ "[]"]) (simp add: drain.simps)
  next
    case False
    show ?thesis
    proof (cases "mimo_row p from ms nTx nRx r e (top_q q)")
      case (Inl err)
      with False show ?thesis
        by (intro exI [of _ "[]"]) (simp add: drain.simps)
    next
      case (Inr row)
      from "1.IH" [OF False Inr] obtain rows ks where
        r: "final (drain p from ms nTx nRx r e f (pop_q q) (write_line f row w))
              = logged (write_line f row w) [] (map (WriteLine f) rows) []"
           "\<forall>row \<in> set rows. row \<noteq> []" "map last rows = map Db ks"
           "sorted_wrt (\<lambda>a b. a \<ge> b) ks" "mset ks \<subseteq># mset (map fst (pop_q q))"
           "(\<exists>w'. drain p from ms nTx nRx r e f (pop_q q) (write_line f row w) = Inr w')
              \<longrightarrow> mset ks = mset (map fst (pop_q q))"
        by blast
      have unf: "drain p from ms nTx nRx r e f q w
                   = drain p from ms nTx nRx r e f (pop_q q) (write_line f row w)"
        using False Inr by (simp add: drain.simps [of p "from" ms nTx nRx r e f q w])
      note keys = mset_keys_pop_q [OF False]
      have le: "k \<le> fst (top_q q)" if "k \<in> set ks" for k
      proof -
        from that r(5) have "k \<in># mset (map fst (pop_q q))"
          by (meson mset_subset_eqD set_mset_mset in_multiset_in_set)
        then have "k \<in># mset (map fst q)" unfolding keys by simp
        then have "k \<in> set (map fst q)" by simp
        then obtain x where "x \<in> set q" "fst x = k" by auto
        with top_q_greatest [of x q] show ?thesis by simp
      qed
      have sub: "mset (fst (top_q q) # ks) \<subseteq># mset (map fst q)"
        unfolding keys using r(5) by simp
      show ?thesis
        unfolding unf
        using r mimo_row_shape [OF Inr] le sub keys
        by (intro exI [of _ "row # rows"] exI [of _ "fst (top_q q) # ks"])
           (auto simp: write_line_logged)
    qed
  qed
qed

lemma mimo_header_shape:
  "mimo_header nTx nRx = Some h \<Longrightarrow> h \<noteq> [] \<and> last h = Txt ''min_Stream_SNR''"
  by (auto simp: mimo_header_def split: option.splits)

lemma for_u8_le_returns:
  "n < 255 \<Longrightarrow> \<exists>r. for_u8 (\<lambda>i. i \<le> n) b 1 acc = Some r"
  using for_u8_upto [of 1 "n + 1" "\<lambda>i. i \<le> n" b acc] by simp

lemma for_u8_less_returns:
  "n < 256 \<Longrightarrow> \<exists>r. for_u8 (\<lambda>i. i < n) b 0 acc = Some r"
  using for_u8_upto [of 0 n "\<lambda>i. i < n" b acc] by simp

lemma mimo_header_returns:
  assumes "nTx < 255" "nRx < 255" "nRx * nTx < 256"
  shows "\<exists>h. mimo_header nTx nRx = Some (h :: 'r cell list)"
proof -
  have "\<exists>cs1. for_u8 (\<lambda>i. i \<le> nTx)
             (\<lambda>i cs. cs @ [Indexed ''TX_ANTENNA_ID'' (u16 i), Indexed ''TX_SECTOR_ID'' (u16 i),
                            Indexed ''TX_AWV_ID'' (u16 i)])
             1 [Txt ''SRC_ID'', Txt ''DST_ID'', Txt ''TRACE_IDX'' :: 'r cell] = Some cs1"
    by (rule for_u8_le_returns [OF assms(1)])
  then obtain cs1 :: "'r cell list" where 1: "for_u8 (\<lambda>i. i \<le> nTx)
             (\<lambda>i cs. cs @ [Indexed ''TX_ANTENNA_ID'' (u16 i), Indexed ''TX_SECTOR_ID'' (u16 i),
                            Indexed ''TX_AWV_ID'' (u16 i)])
             1 [Txt ''SRC_ID'', Txt ''DST_ID'', Txt ''TRACE_IDX''] = Some cs1" ..
  have "\<exists>cs2. for_u8 (\<lambda>i. i \<le> nRx)
                  (\<lambda>i cs. cs @ [Indexed ''RX_ANTENNA_ID'' (u16 i), Indexed ''RX_SECTOR_ID'' (u16 i),
                                 Indexed ''RX_AWV_ID'' (u16 i)])
                  1 cs1 = Some cs2"
    by (rule for_u8_le_returns [OF assms(2)])
  then obtain cs2 :: "'r cell list" where 2: "for_u8 (\<lambda>i. i \<le> nRx)
                  (\<lambda>i cs. cs @ [Indexed ''RX_ANTENNA_ID'' (u16 i), Indexed ''RX_SECTOR_ID'' (u16 i),
                                 Indexed ''RX_AWV_ID'' (u16 i)])
                  1 cs1 = Some cs2" ..
  have "\<exists>cs3. for_u8 (\<lambda>i. i < nRx * nTx) (\<lambda>i cs. cs @ [Txt ''SNR'']) 0 cs2 = Some cs3"
    by (rule for_u8_less_returns [OF assms(3)])
  then obtain cs3 :: "'r cell list" where 3:
    "for_u8 (\<lambda>i. i < nRx * nTx) (\<lambda>i cs. cs @ [Txt ''SNR'']) 0 cs2 = Some cs3" ..
  from 1 2 3 show ?thesis by (simp add: mimo_header_def)
qed

lemma SuMimoMimoPhaseMeasurements_logged:
  assumes "SuMimoMimoPhaseMeasurements p from ms q d nTx nRx r e (w :: ('r::linorder) world) = Some res"
  shows "\<exists>f h rows ks. final res = logged w [ReportingMimoMeasurements (GetAddress (srcWifiMac p)) from (Now e)]
             (CreateFileStream f # WriteLine f h # map (WriteLine f) rows) []
      \<and> h \<noteq> [] \<and> last h = Txt ''min_Stream_SNR''
      \<and> (\<forall>row \<in> set rows. row \<noteq> []) \<and> map last rows = map Db ks
      \<and> sorted_wrt (\<lambda>a b. a \<ge> b) ks \<and> mset ks \<subseteq># mset (map fst q)
      \<and> ((\<exists>w'. res = Inr w') \<longrightarrow> mset ks = mset (map fst q))"
proof -
  define f where "f = tracesFolder w @ ''SuMimoMimoPhaseMeasurements_''
                @ to_string (u32 (srcNodeID p + 1)) @ ''.csv''"
  from assms obtain h :: "'r cell list" where h: "mimo_header nTx nRx = Some h"
    by (auto simp: SuMimoMimoPhaseMeasurements_def Let_def split: option.splits)
  define w3 where "w3 = logged w [ReportingMimoMeasurements (GetAddress (srcWifiMac p)) from (Now e)]
             [CreateFileStream f, WriteLine f h] []"
  from assms h have res: "res = drain p from ms nTx nRx r e f q w3"
    by (simp add: SuMimoMimoPhaseMeasurements_def Let_def log_simps f_def w3_def)
  from drain_logged [of p "from" ms nTx nRx r e f q w3] obtain rows ks where
     "final (drain p from ms nTx nRx r e f q w3) = logged w3 [] (map (WriteLine f) rows) []"
      "\<forall>row \<in> set rows. row \<noteq> []" "map last rows = map Db ks"
      "sorted_wrt (\<lambda>a b. a \<ge> b) ks" "mset ks \<subseteq># mset (map fst q)"
      "(\<exists>w'. drain p from ms nTx nRx r e f q w3 = Inr w') \<longrightarrow> mset ks = mset (map fst q)"
    by blast
  with mimo_header_shape [OF h] show ?thesis unfolding res w3_def
    by (intro exI [of _ f] exI [of _ h] exI [of _ rows] exI [of _ ks]) simp
qed

subsection \<open>One callback and runs of callbacks\<close>

lemma extends_refl: "extends w w"
  by (simp add: extends_def)

lemma extends_trans: "extends a b \<Longrightarrow> extends b c \<Longrightarrow> extends a c"
  unfolding extends_def by (elim conjE exE) simp

lemma extends_logged: "extends w (logged w ms ops rs)"
  by (simp add: extends_def)

lemma DataTransmissionIntervalStarted_eq:
  "DataTransmissionIntervalStarted mac a d e w =
     (logged w (if trigger e w then [InitiatingSuMimoBft (GetAddress mac) (GetBssid mac) (Now e)] else [])
        []
        ((if IsAssociated mac \<and> firstDti w then [Perform_TXSS_TXOP (GetAddress mac) (GetBssid mac)] else [])
         @ (if trigger e w then [start_request mac] else [])))
     \<lparr>firstDti := firstDti w \<and> \<not> IsAssociated mac\<rparr>"
proof -
  have id: "w\<lparr>firstDti := firstDti w\<rparr> = w" by simp
  show ?thesis
    by (cases "IsAssociated mac"; cases "firstDti w"; cases "trigger e w")
       (simp_all add: DataTransmissionIntervalStarted_def Let_def trigger_def start_request_def
          print_def request_def logged_def)
qed

lemma SLSCompleted_eq:
  "SLSCompleted stream p a e w =
     (logged w
        (if csv w then [] else [CompletedSls (GetAddress (wifiMac p)) (peerStation a),
                                BestTxAntennaConfiguration (u16 (antennaID a)) (u16 (sectorID a))])
        [WriteLine stream
           [UInt (u32 (srcNodeID p + 1)), UInt (u32 (dstNodeID p + 1)),
            UInt (GetCurrentTraceIndex e), UInt (u16 (sectorID a)), UInt (u16 (antennaID a)),
            UInt (GetTypeOfStation (wifiMac p)), UInt (u32 (apNodeId w + 1)), I64 (Now e)]]
        (if csv w then [] else [PrintSnrTable (GetAddress (wifiMac p))]))
     \<lparr>beamformedLinks := (if \<not> csv w \<and> accessPeriod a = CHANNEL_ACCESS_DTI
                           then u8 (beamformedLinks w + 1) else beamformedLinks w)\<rparr>"
  by (cases "csv w"; cases "accessPeriod a = CHANNEL_ACCESS_DTI")
     (simp_all add: SLSCompleted_def Let_def print_def request_def write_line_def logged_def)

lemma SuMimoMimoPhaseComplete_eq:
  "SuMimoMimoPhaseComplete p from e w =
     (logged w [FinishedMimoPhase (GetAddress (wifiMac p)) from (Now e)] [] [])
     \<lparr>suMimoCompleted := True\<rparr>"
  by (simp add: SuMimoMimoPhaseComplete_def Let_def print_def logged_def)

lemma counting_eqs:
  "StationAssoicated mac a aid w = logged w (if csv w then [] else [Associated (GetAddress mac) a aid]) [] []"
  "MacRxOk stream t a snr e w = logged w [] (if t = WIFI_MAC_QOSDATA then [WriteLine stream [I64 (Now e), Raw snr]] else []) []"
  by (simp_all add: StationAssoicated_def MacRxOk_def print_def write_line_def logged_def)

lemma extends_updates:
  "extends w ((logged w ms ops rs)\<lparr>beamformedLinks := b\<rparr>)"
  "extends w ((logged w ms ops rs)\<lparr>firstDti := firstDti w \<and> c\<rparr>)"
  "extends w ((logged w ms ops rs)\<lparr>suMimoCompleted := True\<rparr>)"
  "extends w (w\<lparr>macTxDataFailed := n\<rparr>)"
  "extends w (w\<lparr>transmittedPackets := n\<rparr>)"
  "extends w (w\<lparr>droppedPackets := n\<rparr>)"
  "extends w (w\<lparr>receivedPackets := n\<rparr>)"
  by (simp_all add: extends_def)

lemma issued_updates [simp]:
  "issued w ((logged w ms ops rs)\<lparr>beamformedLinks := b\<rparr>) = rs"
  "issued w ((logged w ms ops rs)\<lparr>firstDti := c\<rparr>) = rs"
  "issued w ((logged w ms ops rs)\<lparr>suMimoCompleted := c\<rparr>) = rs"
  "issued w (w\<lparr>macTxDataFailed := n\<rparr>) = []"
  "issued w (w\<lparr>transmittedPackets := n\<rparr>) = []"
  "issued w (w\<lparr>droppedPackets := n\<rparr>) = []"
  "issued w (w\<lparr>receivedPackets := n\<rparr>) = []"
  by (simp_all add: issued_def)

lemma step_effect:
  assumes "step ev e (w :: ('r::linorder) world) = Some r"
  shows "extends w (final r) \<and> issued w (final r) = requests_of ev e w
         \<and> beamformedLinks (final r) = links_after ev w
         \<and> firstDti (final r) = firstDti_after ev w
         \<and> suMimoCompleted (final r) = completed_after ev w"
proof (cases ev)
  case (EvSLSCompleted stream p a)
  with assms have r: "r = Inr (SLSCompleted stream p a e w)" by simp
  show ?thesis unfolding r EvSLSCompleted
    by (simp add: SLSCompleted_eq extends_updates)
next
  case (EvDTIStarted mac a d)
  with assms have r: "r = Inr (DataTransmissionIntervalStarted mac a d e w)" by simp
  show ?thesis unfolding r EvDTIStarted
    by (simp add: DataTransmissionIntervalStarted_eq extends_updates)
next
  case (EvSisoPhaseMeasurements p "from" m n)
  with assms have r: "r = SuMimoSisoPhaseMeasurements p from m n e w" by simp
  from SuMimoSisoPhaseMeasurements_logged [of p "from" m n e w]
  obtain ops where "final r = logged w [ReportingSisoMeasurements (GetAddress (wifiMac p)) from (Now e)] ops []"
    unfolding r by blast
  with EvSisoPhaseMeasurements show ?thesis by (simp add: extends_logged)
next
  case (EvSisoPhaseCompleted p "from" m nTx nRx)
  with assms have r: "r = Inr (SuMimoSisoPhaseComplete p from m nTx nRx e w)" by simp
  show ?thesis unfolding r EvSisoPhaseCompleted
    by (simp add: SuMimoSisoPhaseComplete_logged extends_logged)
next
  case (EvMimoCandidatesSelected p "from" tx rx)
  with assms have "SuMimoMimoCandidatesSelected p from tx rx e w = Some r" by simp
  from SuMimoMimoCandidatesSelected_logged [OF this]
  obtain ops where "final r = logged w [ReportingMimoCandidates (GetAddress (wifiMac p)) from (Now e)] ops []"
    by blast
  with EvMimoCandidatesSelected show ?thesis by (simp add: extends_logged)
next
  case (EvMimoPhaseMeasurements p "from" ms q d nTx nRx rc)
  with assms have "SuMimoMimoPhaseMeasurements p from ms q d nTx nRx rc e w = Some r" by simp
  from SuMimoMimoPhaseMeasurements_logged [OF this]
  obtain ops where "final r = logged w [ReportingMimoMeasurements (GetAddress (srcWifiMac p)) from (Now e)] ops []"
    by blast
  with EvMimoPhaseMeasurements show ?thesis by (simp add: extends_logged)
next
  case (EvMimoPhaseCompleted p "from")
  with assms have r: "r = Inr (SuMimoMimoPhaseComplete p from e w)" by simp
  show ?thesis unfolding r EvMimoPhaseCompleted
    by (simp add: SuMimoMimoPhaseComplete_eq extends_updates)
next
  case (EvAssoc mac a aid)
  with assms have r: "r = Inr (StationAssoicated mac a aid w)" by simp
  show ?thesis unfolding r EvAssoc by (simp add: counting_eqs extends_logged)
next
  case EvMacTxDataFailed
  with assms have r: "r = Inr (MacTxDataFailed w)" by simp
  show ?thesis unfolding r EvMacTxDataFailed by (simp add: MacTxDataFailed_def extends_updates)
next
  case EvPhyTxEnd
  with assms have r: "r = Inr (PhyTxEnd w)" by simp
  show ?thesis unfolding r EvPhyTxEnd by (simp add: PhyTxEnd_def extends_updates)
next
  case EvPhyRxDrop
  with assms have r: "r = Inr (PhyRxDrop w)" by simp
  show ?thesis unfolding r EvPhyRxDrop by (simp add: PhyRxDrop_def extends_updates)
next
  case EvPhyRxEnd
  with assms have r: "r = Inr (PhyRxEnd w)" by simp
  show ?thesis unfolding r EvPhyRxEnd by (simp add: PhyRxEnd_def extends_updates)
next
  case (EvMacRxOk stream t a snr)
  with assms have r: "r = Inr (MacRxOk stream t a snr e w)" by simp
  show ?thesis unfolding r EvMacRxOk by (simp add: counting_eqs extends_logged)
qed

lemma run_Cons_cases:
  assumes "run (ev # evs) w = Some r"
  obtains (abort) x where "step (fst ev) (snd ev) w = Some (Inl x)" "r = Inl x"
  | (continue) w' where "step (fst ev) (snd ev) w = Some (Inr w')" "run evs w' = Some r"
  using assms by (auto split: option.splits sum.splits)

lemma issued_trans:
  "extends a b \<Longrightarrow> extends b c \<Longrightarrow> issued a c = issued a b @ issued b c"
  unfolding extends_def issued_def by (elim conjE exE) simp

lemma run_extends: "run evs w = Some r \<Longrightarrow> extends w (final r)"
proof (induction evs arbitrary: w)
  case Nil
  then show ?case by (auto simp: extends_refl)
next
  case (Cons ev evs)
  from Cons.prems show ?case
  proof (cases rule: run_Cons_cases)
    case (abort x)
    with step_effect [OF abort(1)] show ?thesis by simp
  next
    case (continue w')
    from step_effect [OF continue(1)] Cons.IH [OF continue(2)] show ?thesis
      by (auto intro: extends_trans)
  qed
qed

lemma requests_of_completed:
  "suMimoCompleted w \<Longrightarrow> filter is_StartSuMimoBeamforming (requests_of ev e w) = []"
  by (cases ev) (simp_all add: trigger_def start_request_def)

lemma requests_of_csv:
  "beamformedLinks w \<noteq> 2 \<Longrightarrow> filter is_StartSuMimoBeamforming (requests_of ev e w) = []"
  by (cases ev) (simp_all add: trigger_def start_request_def)

lemma run_completed_no_start:
  "suMimoCompleted w \<Longrightarrow> run evs w = Some r \<Longrightarrow>
   filter is_StartSuMimoBeamforming (issued w (final r)) = []"
proof (induction evs arbitrary: w)
  case Nil
  then show ?case by (auto simp: issued_def)
next
  case (Cons ev evs)
  from Cons.prems(2) show ?case
  proof (cases rule: run_Cons_cases)
    case (abort x)
    with step_effect [OF abort(1)] requests_of_completed [OF Cons.prems(1)] show ?thesis by simp
  next
    case (continue w')
    from step_effect [OF continue(1)] Cons.prems(1)
    have c: "suMimoCompleted w'" and e: "extends w w'"
      and i: "issued w w' = requests_of (fst ev) (snd ev) w"
      by (auto simp: extends_def)
    from issued_trans [OF e run_extends [OF continue(2)]] i
      requests_of_completed [OF Cons.prems(1)] Cons.IH [OF c continue(2)]
    show ?thesis by simp
  qed
qed

lemma run_csv_no_start:
  "csv w \<Longrightarrow> beamformedLinks w \<noteq> 2 \<Longrightarrow> run evs w = Some r \<Longrightarrow>
   beamformedLinks (final r) = beamformedLinks w
   \<and> filter is_StartSuMimoBeamforming (issued w (final r)) = []"
proof (induction evs arbitrary: w)
  case Nil
  then show ?case by (auto simp: issued_def)
next
  case (Cons ev evs)
  have same: "links_after (fst ev) w = beamformedLinks w"
    using Cons.prems(1) by (cases "fst ev") simp_all
  from Cons.prems(3) show ?case
  proof (cases rule: run_Cons_cases)
    case (abort x)
    with step_effect [OF abort(1)] requests_of_csv [OF Cons.prems(2)] same show ?thesis by simp
  next
    case (continue w')
    from step_effect [OF continue(1)] same
    have c: "csv w'" "beamformedLinks w' = beamformedLinks w" and e: "extends w w'"
      and i: "issued w w' = requests_of (fst ev) (snd ev) w"
      using Cons.prems(1) by (auto simp: extends_def)
    from c Cons.prems(2) have "beamformedLinks w' \<noteq> 2" by simp
    from Cons.IH [OF c(1) this continue(2)] issued_trans [OF e run_extends [OF continue(2)]] i
      requests_of_csv [OF Cons.prems(2)] c(2)
    show ?thesis by simp
  qed
qed

lemma run_txss_once:
  "run evs w = Some r \<Longrightarrow>
   length (filter is_Perform_TXSS_TXOP (issued w (final r))) \<le> (if firstDti w then 1 else 0)"
proof (induction evs arbitrary: w)
  case Nil
  then show ?case by (auto simp: issued_def)
next
  case (Cons ev evs)
  have one: "length (filter is_Perform_TXSS_TXOP (requests_of (fst ev) (snd ev) w))
               = (if firstDti w \<and> \<not> firstDti_after (fst ev) w then 1 else 0)"
    by (cases "fst ev") (auto simp: start_request_def)
  have mono: "firstDti_after (fst ev) w \<longrightarrow> firstDti w"
    by (cases "fst ev") auto
  from Cons.prems show ?case
  proof (cases rule: run_Cons_cases)
    case (abort x)
    with step_effect [OF abort(1)] one show ?thesis by simp
  next
    case (continue w')
    from step_effect [OF continue(1)]
    have f: "firstDti w' = firstDti_after (fst ev) w" and e: "extends w w'"
      and i: "issued w w' = requests_of (fst ev) (snd ev) w"
      by auto
    from Cons.IH [OF continue(2)] issued_trans [OF e run_extends [OF continue(2)]] i one f mono
    show ?thesis by (auto split: if_splits)
  qed
qed

lemma run_counts_results:
  "\<not> csv w \<Longrightarrow> beamformedLinks w < 256 \<Longrightarrow> run evs w = Some (Inr w') \<Longrightarrow>
   beamformedLinks w' = (beamformedLinks w + dti_results evs) mod 256"
proof (induction evs arbitrary: w)
  case Nil
  then show ?case by (simp add: dti_results_def)
next
  case (Cons ev evs)
  have la: "links_after (fst ev) w = (beamformedLinks w + (if is_dti_result ev then 1 else 0)) mod 256"
    using Cons.prems(1,2) by (cases ev, cases "fst ev") (auto simp: u8_def)
  from Cons.prems(3) show ?case
  proof (cases rule: run_Cons_cases)
    case (abort x)
    then show ?thesis by simp
  next
    case (continue w1)
    from step_effect [OF continue(1)] la Cons.prems(1)
    have c: "\<not> csv w1" "beamformedLinks w1 = (beamformedLinks w + (if is_dti_result ev then 1 else 0)) mod 256"
      by (auto simp: extends_def)
    then have lt: "beamformedLinks w1 < 256" by simp
    from Cons.IH [OF c(1) lt continue(2)] c(2)
    show ?thesis by (simp add: dti_results_def mod_simps)
  qed
qed

subsection \<open>Lines written, and when the candidates callback aborts\<close>

lemma upt_small: "[0..<2] = [0, 1]" "[0..<1] = [0]" "[0..<3] = [0, 1, 2]"
  by (simp_all add: upt_rec)

lemma replicate_small: "replicate 2 x = [x, x]" "replicate 1 x = [x]"
  by (simp_all add: numeral_2_eq_2)

lemma written_updates [simp]:
  "written w ((logged w ms ops rs)\<lparr>beamformedLinks := b\<rparr>) = ops"
  "written w ((logged w ms ops rs)\<lparr>firstDti := c\<rparr>) = ops"
  "written w ((logged w ms ops rs)\<lparr>suMimoCompleted := c\<rparr>) = ops"
  "written w (w\<lparr>macTxDataFailed := n\<rparr>) = []"
  "written w (w\<lparr>transmittedPackets := n\<rparr>) = []"
  "written w (w\<lparr>droppedPackets := n\<rparr>) = []"
  "written w (w\<lparr>receivedPackets := n\<rparr>) = []"
  by (simp_all add: written_def)

lemma filter_create_WriteLines [simp]:
  "filter is_CreateFileStream (map (WriteLine f) rows) = []"
  by (induction rows) simp_all

lemma step_written:
  assumes "step ev e (w :: ('r::linorder) world) = Some r"
  shows "case ev of
           EvSLSCompleted stream p a \<Rightarrow>
             (\<exists>row. written w (final r) = [WriteLine stream row] \<and> row \<noteq> [] \<and> last row = I64 (Now e))
         | EvSisoPhaseMeasurements p from m n \<Rightarrow>
             (\<exists>f rows. written w (final r)
                  = CreateFileStream f # WriteLine f siso_header # map (WriteLine f) rows
                \<and> (\<forall>row \<in> set rows. row \<noteq> [] \<and> last row = I64 (Now e)))
         | EvSisoPhaseCompleted p from m nTx nRx \<Rightarrow>
             (\<exists>f rows. written w (final r)
                  = CreateFileStream f # WriteLine f siso_header # map (WriteLine f) rows
                \<and> (\<forall>row \<in> set rows. row \<noteq> [] \<and> last row = I64 (Now e)))
         | EvMimoCandidatesSelected p from tx rx \<Rightarrow>
             (\<exists>f rest. written w (final r) = CreateFileStream f # rest)
             \<and> well_blocked None (written w (final r))
             \<and> (\<forall>cs \<in> set (lines (written w (final r))). cs \<noteq> [] \<and> last cs = Blank)
         | EvMimoPhaseMeasurements p from ms q d nTx nRx rc \<Rightarrow>
             (\<exists>f h rows ks. written w (final r)
                  = CreateFileStream f # WriteLine f h # map (WriteLine f) rows
                \<and> h \<noteq> [] \<and> last h = Txt ''min_Stream_SNR''
                \<and> (\<forall>row \<in> set rows. row \<noteq> []) \<and> map last rows = map Db ks)
         | EvMacRxOk stream t a snr \<Rightarrow>
             written w (final r)
               = (if t = WIFI_MAC_QOSDATA then [WriteLine stream [I64 (Now e), Raw snr]] else [])
         | _ \<Rightarrow> written w (final r) = []"
proof (cases ev)
  case (EvSLSCompleted stream p a)
  with assms have r: "r = Inr (SLSCompleted stream p a e w)" by simp
  show ?thesis unfolding r EvSLSCompleted by (simp add: SLSCompleted_eq)
next
  case (EvDTIStarted mac a d)
  with assms have r: "r = Inr (DataTransmissionIntervalStarted mac a d e w)" by simp
  show ?thesis unfolding r EvDTIStarted by (simp add: DataTransmissionIntervalStarted_eq)
next
  case (EvSisoPhaseMeasurements p "from" m n)
  with assms have r: "r = SuMimoSisoPhaseMeasurements p from m n e w" by simp
  from SuMimoSisoPhaseMeasurements_logged [of p "from" m n e w]
  show ?thesis unfolding r EvSisoPhaseMeasurements by (auto simp del: logged_logged)
next
  case (EvSisoPhaseCompleted p "from" m nTx nRx)
  with assms have r: "r = Inr (SuMimoSisoPhaseComplete p from m nTx nRx e w)" by simp
  have "\<forall>row \<in> set (map (feedback_row p e) m). row \<noteq> [] \<and> last row = I64 (Now e)"
    by simp
  then show ?thesis unfolding r EvSisoPhaseCompleted
    by (simp only: final_Inr SuMimoSisoPhaseComplete_logged written_logged event.case) blast
next
  case (EvMimoCandidatesSelected p "from" tx rx)
  with assms have "SuMimoMimoCandidatesSelected p from tx rx e w = Some r" by simp
  from SuMimoMimoCandidatesSelected_logged [OF this]
  show ?thesis unfolding EvMimoCandidatesSelected by auto
next
  case (EvMimoPhaseMeasurements p "from" ms q d nTx nRx rc)
  with assms have "SuMimoMimoPhaseMeasurements p from ms q d nTx nRx rc e w = Some r" by simp
  from SuMimoMimoPhaseMeasurements_logged [OF this]
  obtain f h rows ks where
    "final r = logged w [ReportingMimoMeasurements (GetAddress (srcWifiMac p)) from (Now e)]
             (CreateFileStream f # WriteLine f h # map (WriteLine f) rows) []"
    "h \<noteq> []" "last h = Txt ''min_Stream_SNR''" "\<forall>row \<in> set rows. row \<noteq> []"
    "map last rows = map Db ks" by blast
  then show ?thesis unfolding EvMimoPhaseMeasurements by simp blast
next
  case (EvMimoPhaseCompleted p "from")
  with assms have r: "r = Inr (SuMimoMimoPhaseComplete p from e w)" by simp
  show ?thesis unfolding r EvMimoPhaseCompleted by (simp add: SuMimoMimoPhaseComplete_eq)
next
  case (EvAssoc mac a aid)
  with assms have r: "r = Inr (StationAssoicated mac a aid w)" by simp
  show ?thesis unfolding r EvAssoc by (simp add: counting_eqs)
next
  case EvMacTxDataFailed
  with assms have r: "r = Inr (MacTxDataFailed w)" by simp
  show ?thesis unfolding r EvMacTxDataFailed by (simp add: MacTxDataFailed_def)
next
  case EvPhyTxEnd
  with assms have r: "r = Inr (PhyTxEnd w)" by simp
  show ?thesis unfolding r EvPhyTxEnd by (simp add: PhyTxEnd_def)
next
  case EvPhyRxDrop
  with assms have r: "r = Inr (PhyRxDrop w)" by simp
  show ?thesis unfolding r EvPhyRxDrop by (simp add: PhyRxDrop_def)
next
  case EvPhyRxEnd
  with assms have r: "r = Inr (PhyRxEnd w)" by simp
  show ?thesis unfolding r EvPhyRxEnd by (simp add: PhyRxEnd_def)
next
  case (EvMacRxOk stream t a snr)
  with assms have r: "r = Inr (MacRxOk stream t a snr e w)" by simp
  show ?thesis unfolding r EvMacRxOk by (simp add: counting_eqs)
qed

lemma snr_of_line_Txt: "h \<noteq> [] \<Longrightarrow> last h = Txt s \<Longrightarrow> snr_of_line h = []"
  by (cases h) simp_all

lemma snr_of_rows:
  "(\<forall>row \<in> set rows. row \<noteq> []) \<Longrightarrow> map last rows = map Db ks \<Longrightarrow>
   concat (map snr_of_line rows) = ks"
proof (induction rows arbitrary: ks)
  case Nil
  then show ?case by simp
next
  case (Cons row rows)
  from Cons.prems(2) obtain k ks' where ks: "ks = k # ks'" "last row = Db k"
      "map last rows = map Db ks'"
    by (cases ks) auto
  from Cons.prems(1) obtain c cs where row: "row = c # cs" by (cases row) auto
  from Cons.IH [OF _ ks(3)] Cons.prems(1) have "concat (map snr_of_line rows) = ks'" by simp
  with ks row show ?case by simp
qed















subsection \<open>The trace files after the callbacks\<close>

lemma replay_Nil [simp]: "replay mode fs [] = fs"
  by (simp add: replay_def)

lemma replay_Cons [simp]: "replay mode fs (x # xs) = replay mode (perform mode fs x) xs"
  by (simp add: replay_def)


lemma contents_upd [simp]:
  "contents (fs(f \<mapsto> x)) g = (if g = f then x else contents fs g)"
  by (simp add: contents_def)

lemma contents_perform [simp]:
  "contents (perform mode fs (CreateFileStream f)) g
     = (if g = f then kept mode fs f else contents fs g)"
  "contents (perform mode fs (WriteLine f cs)) g
     = (if g = f then contents fs f @ [cs] else contents fs g)"
  by simp_all

lemma contents_replay_WriteLines [simp]:
  "contents (replay mode fs (map (WriteLine f) rows)) g
     = (if g = f then contents fs f @ rows else contents fs g)"
  by (induction rows arbitrary: fs) simp_all

lemma kept_replay_WriteLines [simp]:
  "g \<noteq> f \<Longrightarrow> kept mode (replay mode fs (map (WriteLine f) rows)) g = kept mode fs g"
  by (simp add: kept_def split: openmode.splits)

lemma kept_perform [simp]:
  "g \<noteq> f \<Longrightarrow> kept mode (perform mode fs (CreateFileStream f)) g = kept mode fs g"
  "g \<noteq> f \<Longrightarrow> kept mode (perform mode fs (WriteLine f cs)) g = kept mode fs g"
  by (simp_all add: kept_def split: openmode.splits)

lemma created_WriteLines [simp]: "created (map (WriteLine f) rows) = []"
  by (induction rows) simp_all

lemma created_append [simp]: "created (xs @ ys) = created xs @ created ys"
  by (induction xs rule: created.induct) simp_all

lemma lines_to_WriteLines [simp]:
  "lines_to g (map (WriteLine f) rows) = (if g = f then rows else [])"
  by (induction rows) auto

lemma lines_to_append [simp]: "lines_to f (xs @ ys) = lines_to f xs @ lines_to f ys"
  by (induction xs rule: lines_to.induct) simp_all

lemma created_table [simp]: "created (table f h rows) = [f]"
  by (simp add: table_def)

lemma lines_to_table [simp]: "lines_to g (table f h rows) = (if g = f then h # rows else [])"
  by (simp add: table_def)

lemma contents_replay_table [simp]:
  "contents (replay mode fs (table f h rows)) g
     = (if g = f then kept mode fs f @ h # rows else contents fs g)"
  by (simp add: table_def)

lemma kept_replay_table [simp]:
  "g \<noteq> f \<Longrightarrow> kept mode (replay mode fs (table f h rows)) g = kept mode fs g"
  by (simp add: kept_def split: openmode.splits)

















section \<open>The claims\<close>

subsection \<open>C1\<close>

text \<open>
  C1, as stated: training starts at a DTI start if and only if the count of completed
  data-period sector-sweep results has reached 2, the time exceeds 0.6 s and training has
  not completed. After three such results, at 0.7 s and with training not completed, the
  DTI callback issues no request.
\<close>

theorem three_results_do_not_start_training:
  "run [example_sls, example_sls, example_sls] example_world = Some (Inr example_after_3)
   \<and> dti_results [example_sls, example_sls, example_sls] = 3
   \<and> Seconds_0_6 < Now example_env
   \<and> \<not> suMimoCompleted example_after_3
   \<and> filter is_StartSuMimoBeamforming
        (issued example_after_3
           (DataTransmissionIntervalStarted example_mac 1 0 example_env example_after_3)) = []"
  by (simp add: example_sls_def example_after_1_def example_after_2_def example_after_3_def
        example_world_def example_parameters_def example_mac_def example_env_def
        example_attributes_def
        initial_def SLSCompleted_def Let_def print_def request_def write_line_def
        u8_def u16_def u32_def
        DataTransmissionIntervalStarted_def Seconds_0_6_def issued_def dti_results_def)

text \<open>
  C1, amended: a DTI-start callback schedules \<^verbatim>\<open>StartSuMimoBeamforming\<close> if and only if
  the 8-bit counter \<^verbatim>\<open>beamformedLinks\<close> equals exactly 2, the time exceeds 0.6 s and
  \<^verbatim>\<open>suMimoCompleted\<close> is false; with CSV output off, the counter is the number of
  sector-sweep completions in the DTI so far, modulo 256.
\<close>

theorem dti_start_initiates_training:
  "filter is_StartSuMimoBeamforming (issued w (DataTransmissionIntervalStarted mac a d e w))
     = (if beamformedLinks w = 2 \<and> Seconds_0_6 < Now e \<and> \<not> suMimoCompleted w
        then [Schedule_StartSuMimoBeamforming (MicroSeconds 3) (GetAddress mac) (GetBssid mac)
                True (GetTotalAntennaIdList mac) False]
        else [])
   \<and> (run evs (initial False k n awvs folder ap) = Some (Inr w)
        \<longrightarrow> beamformedLinks w = dti_results evs mod 256)"
proof
  show "filter is_StartSuMimoBeamforming (issued w (DataTransmissionIntervalStarted mac a d e w))
     = (if beamformedLinks w = 2 \<and> Seconds_0_6 < Now e \<and> \<not> suMimoCompleted w
        then [Schedule_StartSuMimoBeamforming (MicroSeconds 3) (GetAddress mac) (GetBssid mac)
                True (GetTotalAntennaIdList mac) False]
        else [])"
    by (simp add: DataTransmissionIntervalStarted_eq trigger_def start_request_def)
next
  show "run evs (initial False k n awvs folder ap) = Some (Inr w)
        \<longrightarrow> beamformedLinks w = dti_results evs mod 256"
  proof
    assume r: "run evs (initial False k n awvs folder ap) = Some (Inr w)"
    have "\<not> csv (initial False k n awvs folder ap :: 'a world)"
         "beamformedLinks (initial False k n awvs folder ap :: 'a world) < 256"
      by (simp_all add: initial_def)
    from run_counts_results [OF this r] show "beamformedLinks w = dti_results evs mod 256"
      by (simp add: initial_def)
  qed
qed

text \<open>
  C1, witness: after two sector sweeps completed in the DTI the callback at 0.7 s schedules
  the training; after one it does not.
\<close>

theorem dti_start_initiates_training_witness:
  "run [example_sls, example_sls] example_world = Some (Inr example_after_2)
   \<and> beamformedLinks example_after_2 = 2
   \<and> filter is_StartSuMimoBeamforming
        (issued example_after_2
           (DataTransmissionIntervalStarted example_mac 1 0 example_env example_after_2))
       = [Schedule_StartSuMimoBeamforming 3000 2 1 True [1, 2] False]
   \<and> run [example_sls] example_world = Some (Inr example_after_1)
   \<and> beamformedLinks example_after_1 = 1
   \<and> filter is_StartSuMimoBeamforming
        (issued example_after_1
           (DataTransmissionIntervalStarted example_mac 1 0 example_env example_after_1)) = []"
proof -
  have r2: "run [example_sls, example_sls] (initial False 10 10 False ''Traces/'' 0)
              = Some (Inr example_after_2)"
    by (simp add: example_sls_def example_world_def example_after_1_def example_after_2_def)
  have r1: "run [example_sls] (initial False 10 10 False ''Traces/'' 0) = Some (Inr example_after_1)"
    by (simp add: example_sls_def example_world_def example_after_1_def)
  have c2: "dti_results [example_sls, example_sls] mod 256 = 2"
    and c1: "dti_results [example_sls] mod 256 = 1"
    by (simp_all add: dti_results_def example_sls_def example_attributes_def)
  have t: "Seconds_0_6 < Now example_env" "GetAddress example_mac = 2" "GetBssid example_mac = 1"
      "GetTotalAntennaIdList example_mac = [1, 2]" "MicroSeconds 3 = 3000"
    by (simp_all add: example_env_def example_mac_def Seconds_0_6_def MicroSeconds_def)
  have n2: "\<not> suMimoCompleted example_after_2" and n1: "\<not> suMimoCompleted example_after_1"
    by (simp_all add: example_after_1_def example_after_2_def example_world_def initial_def
          SLSCompleted_eq)
  from dti_start_initiates_training [of example_after_2 example_mac 1 0 example_env
         "[example_sls, example_sls]" 10 10 False "''Traces/''" 0]
       dti_start_initiates_training [of example_after_1 example_mac 1 0 example_env
         "[example_sls]" 10 10 False "''Traces/''" 0]
       r2 r1 c2 c1 t n2 n1
  show ?thesis by (simp add: example_world_def)
qed

subsection \<open>C2\<close>




subsection \<open>C3\<close>

text \<open>
  C3, as stated: every table, the MIMO measurement table and the MIMO candidate tables
  included, ends with the timestamp in the header and in every row. The lines of the MIMO
  measurement table end with the minimum stream SNR, those of the candidate tables with an
  empty field.
\<close>

theorem mimo_tables_end_without_timestamp:
  "map_option (\<lambda>r. map last (lines (written example_world (final r))))
     (step (fst example_mimo_measurements) (snd example_mimo_measurements) example_world)
   = Some [Txt ''min_Stream_SNR'', Db 12, Db 5, Db 5]
   \<and> map_option (\<lambda>r. map last (lines (written example_world (final r))))
     (step (fst example_candidates) (snd example_candidates) example_world)
   = Some [Blank, Blank, Blank, Blank, Blank]"
  by (simp add: example_mimo_measurements_def example_queue_def example_candidates_def
        example_mimo_parameters_def example_world_def example_parameters_def example_mac_def
        example_env_def initial_def written_def
        SuMimoMimoCandidatesSelected_def candidates_table_def candidates_header_def
        candidates_row_def candidates_rows.simps
        SuMimoMimoPhaseMeasurements_def mimo_header_def mimo_row_def config_cells_def drain.simps
        pop_q_def bnd_def at_nat_def at_int_def for_u8.simps to_string.simps Let_def print_def
        write_line_def create_file_stream_def u8_def u16_def u32_def upt_small replicate_small)

text \<open>
  C3, amended: the row of a sector-sweep completion and the rows of the two SISO tables end
  with the simulation time in nanoseconds, under a header that ends with
  \<^verbatim>\<open>Timestamp\<close>. The MIMO measurement table ends with the \<^verbatim>\<open>min_Stream_SNR\<close> column,
  the lines of the MIMO candidate tables end with an empty field, and a row of the SNR
  stream starts with the time; these have no timestamp as last column.
\<close>

theorem last_columns_of_the_tables:
  "(step ev e w = Some r \<longrightarrow>
      (case ev of
         EvSLSCompleted stream p a \<Rightarrow>
           (\<exists>row. lines (written w (final r)) = [row] \<and> row \<noteq> [] \<and> last row = I64 (Now e))
       | EvSisoPhaseMeasurements p from m n \<Rightarrow>
           (\<exists>rows. lines (written w (final r)) = siso_header # rows
              \<and> (\<forall>row \<in> set rows. row \<noteq> [] \<and> last row = I64 (Now e)))
       | EvSisoPhaseCompleted p from m nTx nRx \<Rightarrow>
           (\<exists>rows. lines (written w (final r)) = siso_header # rows
              \<and> (\<forall>row \<in> set rows. row \<noteq> [] \<and> last row = I64 (Now e)))
       | EvMimoCandidatesSelected p from tx rx \<Rightarrow>
           (\<forall>cs \<in> set (lines (written w (final r))). cs \<noteq> [] \<and> last cs = Blank)
       | EvMimoPhaseMeasurements p from ms q d nTx nRx rc \<Rightarrow>
           (\<exists>h rows. lines (written w (final r)) = h # rows
              \<and> h \<noteq> [] \<and> last h = Txt ''min_Stream_SNR''
              \<and> (\<forall>row \<in> set rows. row \<noteq> [] \<and> (\<exists>k. last row = Db k)))
       | EvMacRxOk stream t a snr \<Rightarrow>
           (\<forall>cs \<in> set (lines (written w (final r))). cs = [I64 (Now e), Raw snr])
       | _ \<Rightarrow> lines (written w (final r)) = []))
   \<and> last (siso_header :: 'a cell list) = Txt ''Timestamp''
   \<and> last (sls_header :: 'a cell list) = Txt ''Timestamp''"
proof (intro conjI impI)
  assume s: "step ev e w = Some r"
  show "case ev of
         EvSLSCompleted stream p a \<Rightarrow>
           (\<exists>row. lines (written w (final r)) = [row] \<and> row \<noteq> [] \<and> last row = I64 (Now e))
       | EvSisoPhaseMeasurements p from m n \<Rightarrow>
           (\<exists>rows. lines (written w (final r)) = siso_header # rows
              \<and> (\<forall>row \<in> set rows. row \<noteq> [] \<and> last row = I64 (Now e)))
       | EvSisoPhaseCompleted p from m nTx nRx \<Rightarrow>
           (\<exists>rows. lines (written w (final r)) = siso_header # rows
              \<and> (\<forall>row \<in> set rows. row \<noteq> [] \<and> last row = I64 (Now e)))
       | EvMimoCandidatesSelected p from tx rx \<Rightarrow>
           (\<forall>cs \<in> set (lines (written w (final r))). cs \<noteq> [] \<and> last cs = Blank)
       | EvMimoPhaseMeasurements p from ms q d nTx nRx rc \<Rightarrow>
           (\<exists>h rows. lines (written w (final r)) = h # rows
              \<and> h \<noteq> [] \<and> last h = Txt ''min_Stream_SNR''
              \<and> (\<forall>row \<in> set rows. row \<noteq> [] \<and> (\<exists>k. last row = Db k)))
       | EvMacRxOk stream t a snr \<Rightarrow>
           (\<forall>cs \<in> set (lines (written w (final r))). cs = [I64 (Now e), Raw snr])
       | _ \<Rightarrow> lines (written w (final r)) = []"
  proof (cases ev)
    case (EvMimoPhaseMeasurements p "from" ms q d nTx nRx rc)
    with step_written [OF s] obtain f h rows ks where
      w: "written w (final r) = CreateFileStream f # WriteLine f h # map (WriteLine f) rows"
      and h: "h \<noteq> []" "last h = Txt ''min_Stream_SNR''"
      and rows: "\<forall>row \<in> set rows. row \<noteq> []" "map last rows = map Db ks"
      by auto
    have "\<exists>k. last row = Db k" if "row \<in> set rows" for row
    proof -
      from that have "last row \<in> set (map last rows)" by simp
      with rows(2) show ?thesis by auto
    qed
    with w h rows(1) show ?thesis unfolding EvMimoPhaseMeasurements by simp
  qed (use step_written [OF s] in \<open>auto split: if_splits\<close>)
qed (simp_all add: siso_header_def sls_header_def)

text \<open>C3, witness: the last fields of the lines of a SISO measurement event.\<close>

theorem last_columns_of_the_tables_witness:
  "map_option (\<lambda>r. map last (lines (written example_world (final r))))
     (step (fst example_measurements) (snd example_measurements) example_world)
   = Some [Txt ''Timestamp'', I64 700000000, I64 700000000]"
proof -
  let ?r = "SuMimoSisoPhaseMeasurements example_parameters 1 [((0, 1, 2), [10, 20])] 1
              example_env example_world"
  have s: "step (fst example_measurements) (snd example_measurements) example_world = Some ?r"
    by (simp add: example_measurements_def)
  have v: "map last (lines (written example_world (final ?r)))
             = [Txt ''Timestamp'', I64 700000000, I64 700000000]"
    by (simp add: example_measurements_def example_world_def example_parameters_def
          example_mac_def example_env_def initial_def written_def siso_header_def
          SuMimoSisoPhaseMeasurements_def to_string.simps Let_def print_def write_line_def
        create_file_stream_def u16_def u32_def)
  from last_columns_of_the_tables [where ev = "fst example_measurements"
         and e = "snd example_measurements" and w = example_world and r = ?r] s v
  show ?thesis by simp
qed

subsection \<open>C4\<close>

text \<open>
  C4, as stated: a MIMO-phase-completed event for a session that is already complete is
  reported as an unexpected anomaly and not processed as a normal completion. On a complete
  session the callback prints what it printed at the first completion, the message that the
  MIMO phase has finished.
\<close>

theorem second_completion_is_processed_as_the_first:
  "suMimoCompleted example_completed
   \<and> printed example_after_2 example_completed = [FinishedMimoPhase 2 1 700000000]
   \<and> printed example_completed
        (SuMimoMimoPhaseComplete example_parameters 1 example_env example_completed)
       = [FinishedMimoPhase 2 1 700000000]"
  by (simp add: example_completed_def SuMimoMimoPhaseComplete_eq printed_def
        example_parameters_def example_mac_def example_env_def)

text \<open>
  C4, amended: the callback prints the same completion message whatever the state of the
  session; on a session that is already complete it changes nothing but the console log
  (the flag \<^verbatim>\<open>suMimoCompleted\<close> stays set), and it records no anomaly.
\<close>

theorem completion_of_a_complete_session:
  "printed w (SuMimoMimoPhaseComplete parameters from e w)
     = [FinishedMimoPhase (GetAddress (wifiMac parameters)) from (Now e)]
   \<and> (suMimoCompleted w \<longrightarrow>
        SuMimoMimoPhaseComplete parameters from e w
          = w\<lparr>cout := cout w @ [FinishedMimoPhase (GetAddress (wifiMac parameters)) from (Now e)]\<rparr>)"
  by (simp add: SuMimoMimoPhaseComplete_def Let_def print_def printed_def)

text \<open>C4, witness: the second completion of the example session.\<close>

theorem completion_of_a_complete_session_witness:
  "suMimoCompleted example_completed
   \<and> SuMimoMimoPhaseComplete example_parameters 1 example_env example_completed
       = example_completed\<lparr>cout := cout example_completed @ [FinishedMimoPhase 2 1 700000000]\<rparr>"
proof -
  have c: "suMimoCompleted example_completed"
    by (simp add: example_completed_def SuMimoMimoPhaseComplete_eq)
  from completion_of_a_complete_session [of example_completed example_parameters 1 example_env] c
  show ?thesis
    by (simp add: example_parameters_def example_mac_def example_env_def)
qed

subsection \<open>C5\<close>

text \<open>
  C5: for every queue handed to the MIMO measurements callback, the minimum stream SNR
  values of the rows written, from top to bottom, are non-increasing; they are keys of the
  queue, and all of them when the callback returns. The callback returns whenever the
  antenna counts are in the range of its \<^verbatim>\<open>uint8_t\<close> loops. (The column holds the dB
  value of each key; the order is that of the keys.)
\<close>

theorem drained_rows_are_non_increasing:
  "(nTx < 255 \<and> nRx < 255 \<and> nRx * nTx < 256 \<longrightarrow>
      (\<exists>r. SuMimoMimoPhaseMeasurements p from ms q d nTx nRx rc e w = Some r))
   \<and> (SuMimoMimoPhaseMeasurements p from ms q d nTx nRx rc e w = Some r \<longrightarrow>
        sorted_wrt (\<lambda>a b. a \<ge> b) (min_Stream_SNR_column (written w (final r)))
        \<and> mset (min_Stream_SNR_column (written w (final r))) \<subseteq># mset (map fst q)
        \<and> ((\<exists>w'. r = Inr w') \<longrightarrow>
              mset (min_Stream_SNR_column (written w (final r))) = mset (map fst q)))"
proof -
  have A: "\<exists>r. SuMimoMimoPhaseMeasurements p from ms q d nTx nRx rc e w = Some r"
    if "nTx < 255 \<and> nRx < 255 \<and> nRx * nTx < 256"
  proof -
    from that obtain h :: "'a cell list" where "mimo_header nTx nRx = Some h"
      using mimo_header_returns by blast
    then show ?thesis by (simp add: SuMimoMimoPhaseMeasurements_def Let_def)
  qed
  have B: "sorted_wrt (\<lambda>a b. a \<ge> b) (min_Stream_SNR_column (written w (final r)))
        \<and> mset (min_Stream_SNR_column (written w (final r))) \<subseteq># mset (map fst q)
        \<and> ((\<exists>w'. r = Inr w') \<longrightarrow>
              mset (min_Stream_SNR_column (written w (final r))) = mset (map fst q))"
    if a: "SuMimoMimoPhaseMeasurements p from ms q d nTx nRx rc e w = Some r"
  proof -
    from SuMimoMimoPhaseMeasurements_logged [OF a] obtain f h rows ks where
      l: "final r = logged w [ReportingMimoMeasurements (GetAddress (srcWifiMac p)) from (Now e)]
               (CreateFileStream f # WriteLine f h # map (WriteLine f) rows) []"
      and h: "h \<noteq> []" "last h = Txt ''min_Stream_SNR''"
      and rows: "\<forall>row \<in> set rows. row \<noteq> []" "map last rows = map Db ks"
      and ks: "sorted_wrt (\<lambda>a b. a \<ge> b) ks" "mset ks \<subseteq># mset (map fst q)"
        "(\<exists>w'. r = Inr w') \<longrightarrow> mset ks = mset (map fst q)"
      by blast
    have col: "min_Stream_SNR_column (written w (final r)) = ks"
      unfolding l
      by (simp add: min_Stream_SNR_column_def snr_of_line_Txt [OF h] snr_of_rows [OF rows])
    from ks show ?thesis unfolding col by simp
  qed
  from A B show ?thesis by blast
qed

text \<open>C5, witness: a queue with two equal keys and a greater one, and one of equal keys.\<close>

theorem drained_rows_are_non_increasing_witness:
  "map_option (\<lambda>r. (min_Stream_SNR_column (written example_world (final r)), isl r))
     (SuMimoMimoPhaseMeasurements example_mimo_parameters 1 [[1, 2, 3, 4], [5, 6, 7, 8]]
        example_queue False 2 2 2 example_env example_world)
   = Some ([12, 5, 5], False)
   \<and> map_option (\<lambda>r. (min_Stream_SNR_column (written example_world (final r)), isl r))
     (SuMimoMimoPhaseMeasurements example_mimo_parameters 1 [[1, 2, 3, 4], [5, 6, 7, 8]]
        example_equal_queue False 2 2 2 example_env example_world)
   = Some ([7, 7], False)
   \<and> sorted_wrt (\<lambda>a b. a \<ge> b) [12, 5, 5 :: int]
   \<and> mset [12, 5, 5 :: int] = mset (map fst example_queue)"
proof -
  have n: "(2::nat) < 255 \<and> (2::nat) < 255 \<and> (2::nat) * 2 < 256" by simp
  from drained_rows_are_non_increasing [of 2 2 example_mimo_parameters 1
         "[[1, 2, 3, 4], [5, 6, 7, 8]]" example_queue False 2 example_env example_world]
       n
  obtain r where r: "SuMimoMimoPhaseMeasurements example_mimo_parameters 1
        [[1, 2, 3, 4], [5, 6, 7, 8]] example_queue False 2 2 2 example_env example_world = Some r"
    by blast
  have v: "map_option (\<lambda>r. (min_Stream_SNR_column (written example_world (final r)), isl r))
     (SuMimoMimoPhaseMeasurements example_mimo_parameters 1 [[1, 2, 3, 4], [5, 6, 7, 8]]
        example_queue False 2 2 2 example_env example_world) = Some ([12, 5, 5], False)"
    by (simp add: example_queue_def example_mimo_parameters_def example_world_def
          example_mac_def example_env_def initial_def written_def min_Stream_SNR_column_def
          SuMimoMimoPhaseMeasurements_def mimo_header_def mimo_row_def config_cells_def drain.simps
        pop_q_def bnd_def at_nat_def at_int_def for_u8.simps to_string.simps Let_def print_def
        write_line_def create_file_stream_def u8_def u16_def u32_def upt_small replicate_small)
  have v': "map_option (\<lambda>r. (min_Stream_SNR_column (written example_world (final r)), isl r))
     (SuMimoMimoPhaseMeasurements example_mimo_parameters 1 [[1, 2, 3, 4], [5, 6, 7, 8]]
        example_equal_queue False 2 2 2 example_env example_world) = Some ([7, 7], False)"
    by (simp add: example_equal_queue_def example_mimo_parameters_def example_world_def
          example_mac_def example_env_def initial_def written_def min_Stream_SNR_column_def
          SuMimoMimoPhaseMeasurements_def mimo_header_def mimo_row_def config_cells_def drain.simps
        pop_q_def bnd_def at_nat_def at_int_def for_u8.simps to_string.simps Let_def print_def
        write_line_def create_file_stream_def u8_def u16_def u32_def upt_small replicate_small)
  from v r have c: "min_Stream_SNR_column (written example_world (final r)) = [12, 5, 5]"
    and i: "\<exists>w'. r = Inr w'"
    by (cases r; simp)+
  from drained_rows_are_non_increasing [of 2 2 example_mimo_parameters 1
         "[[1, 2, 3, 4], [5, 6, 7, 8]]" example_queue False 2 example_env example_world r]
       r c i v v'
  show ?thesis by simp
qed

subsection \<open>C6\<close>

text \<open>
  C6, as stated: over the whole run exactly one \<^verbatim>\<open>StartSuMimoBeamforming\<close> request is
  issued. Two DTI starts that both find the counter at 2, the time past 0.6 s and the
  training not completed schedule two requests.
\<close>

theorem two_dti_starts_issue_two_requests:
  "map_option (\<lambda>r. filter is_StartSuMimoBeamforming (requests (final r)))
     (run [example_sls, example_sls, example_dti, example_dti] example_world)
   = Some [Schedule_StartSuMimoBeamforming 3000 2 1 True [1, 2] False,
           Schedule_StartSuMimoBeamforming 3000 2 1 True [1, 2] False]"
  by (simp add: example_sls_def example_dti_def
        example_world_def example_parameters_def example_mac_def example_env_def
        example_attributes_def
        initial_def SLSCompleted_def Let_def print_def request_def write_line_def
        u8_def u16_def u32_def
        DataTransmissionIntervalStarted_def Seconds_0_6_def MicroSeconds_def)

text \<open>
  C6, amended: a DTI-start callback schedules one \<^verbatim>\<open>StartSuMimoBeamforming\<close> request,
  with the full antenna list of the initiator's codebook, when its condition holds and none
  otherwise; no other callback schedules one; and from a session that is complete onwards
  no request is scheduled at all.
\<close>

theorem start_requests_of_callbacks:
  "(step ev e w = Some r \<longrightarrow>
      filter is_StartSuMimoBeamforming (issued w (final r))
        = (case ev of
             EvDTIStarted mac a d \<Rightarrow>
               if beamformedLinks w = 2 \<and> Seconds_0_6 < Now e \<and> \<not> suMimoCompleted w
               then [Schedule_StartSuMimoBeamforming (MicroSeconds 3) (GetAddress mac)
                       (GetBssid mac) True (GetTotalAntennaIdList mac) False]
               else []
           | _ \<Rightarrow> []))
   \<and> (suMimoCompleted w \<and> run evs w = Some r' \<longrightarrow>
        filter is_StartSuMimoBeamforming (issued w (final r')) = [])"
proof (intro conjI impI)
  assume s: "step ev e w = Some r"
  from step_effect [OF s] have i: "issued w (final r) = requests_of ev e w" by simp
  show "filter is_StartSuMimoBeamforming (issued w (final r))
        = (case ev of
             EvDTIStarted mac a d \<Rightarrow>
               if beamformedLinks w = 2 \<and> Seconds_0_6 < Now e \<and> \<not> suMimoCompleted w
               then [Schedule_StartSuMimoBeamforming (MicroSeconds 3) (GetAddress mac)
                       (GetBssid mac) True (GetTotalAntennaIdList mac) False]
               else []
           | _ \<Rightarrow> [])"
    unfolding i by (cases ev) (simp_all add: trigger_def start_request_def)
next
  assume "suMimoCompleted w \<and> run evs w = Some r'"
  then show "filter is_StartSuMimoBeamforming (issued w (final r')) = []"
    using run_completed_no_start by blast
qed

text \<open>
  C6, witness: the DTI start after two sector sweeps, and two DTI starts after completion.
\<close>

theorem start_requests_of_callbacks_witness:
  "step (fst example_dti) (snd example_dti) example_after_2
     = Some (Inr (DataTransmissionIntervalStarted example_mac 1 0 example_env example_after_2))
   \<and> filter is_StartSuMimoBeamforming
        (issued example_after_2
           (DataTransmissionIntervalStarted example_mac 1 0 example_env example_after_2))
       = [Schedule_StartSuMimoBeamforming 3000 2 1 True [1, 2] False]
   \<and> suMimoCompleted example_completed
   \<and> run [example_dti, example_dti] example_completed
       = Some (Inr (DataTransmissionIntervalStarted example_mac 1 0 example_env
                     (DataTransmissionIntervalStarted example_mac 1 0 example_env
                        example_completed)))
   \<and> filter is_StartSuMimoBeamforming
        (issued example_completed
           (DataTransmissionIntervalStarted example_mac 1 0 example_env
              (DataTransmissionIntervalStarted example_mac 1 0 example_env example_completed)))
       = []"
proof -
  let ?w = "DataTransmissionIntervalStarted example_mac 1 0 example_env example_after_2"
  let ?w' = "DataTransmissionIntervalStarted example_mac 1 0 example_env
              (DataTransmissionIntervalStarted example_mac 1 0 example_env example_completed)"
  have s: "step (fst example_dti) (snd example_dti) example_after_2 = Some (Inr ?w)"
    by (simp add: example_dti_def)
  have r: "run [example_dti, example_dti] example_completed = Some (Inr ?w')"
    by (simp add: example_dti_def)
  have c: "suMimoCompleted example_completed"
    by (simp add: example_completed_def SuMimoMimoPhaseComplete_eq)
  have f: "beamformedLinks example_after_2 = 2" "\<not> suMimoCompleted example_after_2"
      "Seconds_0_6 < Now (snd example_dti)" "fst example_dti = EvDTIStarted example_mac 1 0"
      "GetAddress example_mac = 2" "GetBssid example_mac = 1"
      "GetTotalAntennaIdList example_mac = [1, 2]" "MicroSeconds 3 = 3000"
    by (simp_all add: example_dti_def example_after_1_def example_after_2_def
          example_world_def example_parameters_def example_mac_def example_env_def
        example_attributes_def
          initial_def SLSCompleted_def Let_def print_def request_def write_line_def
        u8_def u16_def u32_def
          Seconds_0_6_def MicroSeconds_def)
  from start_requests_of_callbacks [where ev = "fst example_dti" and e = "snd example_dti"
         and w = example_after_2 and r = "Inr ?w"]
       start_requests_of_callbacks [where w = example_completed
         and evs = "[example_dti, example_dti]" and r' = "Inr ?w'"] s r c f
  show ?thesis by simp
qed

subsection \<open>C7\<close>

text \<open>
  C7: the SISO-phase-completed callback calls \<^verbatim>\<open>FindKBestCombinations\<close> with
  \<^verbatim>\<open>kBestCombinations\<close> on the feedback map it was given, and passes the list returned,
  as it is, to \<^verbatim>\<open>StartSuMimoMimoPhase\<close> (after \<^verbatim>\<open>AppendAwvsForSuMimoBFT_27\<close> when AWVs are
  used); no callback changes \<^verbatim>\<open>kBestCombinations\<close>.
\<close>

theorem siso_completion_requests_mimo_phase:
  "issued w (SuMimoSisoPhaseComplete parameters from feedbackMap nTx nRx e w)
     = (if useAwvs w then [AppendAwvsForSuMimoBFT_27 (GetAddress (wifiMac parameters))] else [])
       @ [StartSuMimoMimoPhase (GetAddress (wifiMac parameters)) from
            (FindKBestCombinations (wifiMac parameters) (kBestCombinations w) nTx nRx feedbackMap)
            (numberOfTxCombinationsRequested w) (useAwvs w)]
   \<and> (run evs w = Some r \<longrightarrow> kBestCombinations (final r) = kBestCombinations w)"
  using run_extends [of evs w r]
  by (simp add: SuMimoSisoPhaseComplete_logged extends_def)

text \<open>C7, witness: a SISO completion in the example session.\<close>

theorem siso_completion_requests_mimo_phase_witness:
  "issued example_after_2
     (SuMimoSisoPhaseComplete example_parameters 1 example_feedback 2 2 example_env example_after_2)
     = [StartSuMimoMimoPhase 2 1 [[(1, 3), (2, 4)]] 10 False]
   \<and> run [example_dti, example_siso_completed] example_after_2
       = Some (Inr (SuMimoSisoPhaseComplete example_parameters 1 example_feedback 2 2 example_env
                     (DataTransmissionIntervalStarted example_mac 1 0 example_env example_after_2)))
   \<and> kBestCombinations
        (SuMimoSisoPhaseComplete example_parameters 1 example_feedback 2 2 example_env
           (DataTransmissionIntervalStarted example_mac 1 0 example_env example_after_2)) = 10"
proof -
  let ?w = "SuMimoSisoPhaseComplete example_parameters 1 example_feedback 2 2 example_env
              (DataTransmissionIntervalStarted example_mac 1 0 example_env example_after_2)"
  have r: "run [example_dti, example_siso_completed] example_after_2 = Some (Inr ?w)"
    by (simp add: example_dti_def example_siso_completed_def)
  have f: "useAwvs example_after_2 = False" "kBestCombinations example_after_2 = 10"
    "numberOfTxCombinationsRequested example_after_2 = 10"
    "GetAddress (wifiMac example_parameters) = 2"
    "FindKBestCombinations (wifiMac example_parameters) 10 2 2 example_feedback = [[(1, 3), (2, 4)]]"
    by (simp_all add: example_feedback_def example_after_1_def example_after_2_def
          example_world_def example_parameters_def example_mac_def example_env_def
        example_attributes_def
          initial_def SLSCompleted_def Let_def print_def request_def write_line_def
        u8_def u16_def u32_def)
  from siso_completion_requests_mimo_phase [of example_after_2 example_parameters 1 example_feedback
         2 2 example_env "[example_dti, example_siso_completed]" "Inr ?w"] r f
  show ?thesis by simp
qed

subsection \<open>C8\<close>

text \<open>
  C8, as stated: once the session is complete no earlier phase is re-entered. On a session
  whose MIMO phase has completed, the SISO-completed callback still requests the MIMO phase,
  and the DTI callback of an associated station still requests the initial sector sweep
  while \<^verbatim>\<open>firstDti\<close> holds.
\<close>

theorem complete_session_reenters_earlier_phases:
  "suMimoCompleted example_completed
   \<and> map_option (\<lambda>r. issued example_completed (final r))
         (run [example_siso_completed] example_completed)
       = Some [StartSuMimoMimoPhase 2 1 [[(1, 3), (2, 4)]] 10 False]
   \<and> map_option (\<lambda>r. issued example_completed (final r))
         (run [example_dti] example_completed)
       = Some [Perform_TXSS_TXOP 2 1]"
  by (simp add: example_completed_def example_siso_completed_def example_dti_def
        example_feedback_def example_after_1_def example_after_2_def
        example_world_def example_parameters_def example_mac_def example_env_def
        example_attributes_def initial_def SLSCompleted_eq SuMimoMimoPhaseComplete_eq
        SuMimoSisoPhaseComplete_logged DataTransmissionIntervalStarted_eq trigger_def)

text \<open>
  C8, amended: over every sequence of callbacks \<^verbatim>\<open>firstDti\<close> only goes from true to false
  and \<^verbatim>\<open>suMimoCompleted\<close> only from false to true; the initial sector sweep
  (\<^verbatim>\<open>Perform_TXSS_TXOP\<close>) is issued at most once, and not at all once \<^verbatim>\<open>firstDti\<close> is
  false; once the session is complete no \<^verbatim>\<open>StartSuMimoBeamforming\<close> is scheduled any
  more. A complete session stays complete, but its callbacks still ask for earlier phases:
  the DTI callback of an associated station requests the sector sweep if \<^verbatim>\<open>firstDti\<close>
  still holds, every sector-sweep completion prints the SNR table unless CSV output is on,
  and every SISO-completed callback requests the MIMO phase; the other callbacks request
  nothing.
\<close>

theorem training_flags_are_monotone:
  "(run evs w = Some r \<longrightarrow>
      (firstDti (final r) \<longrightarrow> firstDti w)
      \<and> (suMimoCompleted w \<longrightarrow> suMimoCompleted (final r))
      \<and> length (filter is_Perform_TXSS_TXOP (issued w (final r))) \<le> (if firstDti w then 1 else 0)
      \<and> (suMimoCompleted w \<longrightarrow> filter is_StartSuMimoBeamforming (issued w (final r)) = []))
   \<and> (suMimoCompleted w \<and> step ev e w = Some r' \<longrightarrow>
        suMimoCompleted (final r')
        \<and> issued w (final r')
            = (case ev of
                 EvDTIStarted mac a d \<Rightarrow>
                   if IsAssociated mac \<and> firstDti w
                   then [Perform_TXSS_TXOP (GetAddress mac) (GetBssid mac)] else []
               | EvSLSCompleted stream p a \<Rightarrow>
                   if csv w then [] else [PrintSnrTable (GetAddress (wifiMac p))]
               | EvSisoPhaseCompleted p from m nTx nRx \<Rightarrow>
                   (if useAwvs w then [AppendAwvsForSuMimoBFT_27 (GetAddress (wifiMac p))] else [])
                   @ [StartSuMimoMimoPhase (GetAddress (wifiMac p)) from
                        (FindKBestCombinations (wifiMac p) (kBestCombinations w) nTx nRx m)
                        (numberOfTxCombinationsRequested w) (useAwvs w)]
               | _ \<Rightarrow> []))"
proof (intro conjI impI)
  assume a: "suMimoCompleted w \<and> step ev e w = Some r'"
  then have s: "step ev e w = Some r'" and c: "suMimoCompleted w" by simp_all
  from step_effect [OF s] c show "suMimoCompleted (final r')"
    by (simp add: extends_def)
  from step_effect [OF s] have i: "issued w (final r') = requests_of ev e w" by simp
  show "issued w (final r')
            = (case ev of
                 EvDTIStarted mac a d \<Rightarrow>
                   if IsAssociated mac \<and> firstDti w
                   then [Perform_TXSS_TXOP (GetAddress mac) (GetBssid mac)] else []
               | EvSLSCompleted stream p a \<Rightarrow>
                   if csv w then [] else [PrintSnrTable (GetAddress (wifiMac p))]
               | EvSisoPhaseCompleted p from m nTx nRx \<Rightarrow>
                   (if useAwvs w then [AppendAwvsForSuMimoBFT_27 (GetAddress (wifiMac p))] else [])
                   @ [StartSuMimoMimoPhase (GetAddress (wifiMac p)) from
                        (FindKBestCombinations (wifiMac p) (kBestCombinations w) nTx nRx m)
                        (numberOfTxCombinationsRequested w) (useAwvs w)]
               | _ \<Rightarrow> [])"
    unfolding i using c by (cases ev) (simp_all add: trigger_def)
next
  assume r: "run evs w = Some r"
  from run_extends [OF r] show "firstDti (final r) \<Longrightarrow> firstDti w"
    by (simp add: extends_def)
  from run_extends [OF r] show "suMimoCompleted w \<Longrightarrow> suMimoCompleted (final r)"
    by (simp add: extends_def)
  from run_txss_once [OF r]
  show "length (filter is_Perform_TXSS_TXOP (issued w (final r))) \<le> (if firstDti w then 1 else 0)" .
  from run_completed_no_start [OF _ r]
  show "suMimoCompleted w \<Longrightarrow> filter is_StartSuMimoBeamforming (issued w (final r)) = []" .
qed

text \<open>
  C8, witness: a run from the start to completion, a run after completion, and a
  SISO-completed callback after completion.
\<close>

theorem training_flags_are_monotone_witness:
  "run [example_dti, example_sls, example_sls, example_dti, example_mimo_completed]
     example_world
     = Some (Inr (SuMimoMimoPhaseComplete example_parameters 1 example_env
           (DataTransmissionIntervalStarted example_mac 1 0 example_env
             (SLSCompleted ''slsResults.csv'' example_parameters example_attributes example_env
               (SLSCompleted ''slsResults.csv'' example_parameters example_attributes example_env
                 (DataTransmissionIntervalStarted example_mac 1 0 example_env example_world))))))
   \<and> firstDti example_world
   \<and> filter is_Perform_TXSS_TXOP
        (requests (SuMimoMimoPhaseComplete example_parameters 1 example_env
           (DataTransmissionIntervalStarted example_mac 1 0 example_env
             (SLSCompleted ''slsResults.csv'' example_parameters example_attributes example_env
               (SLSCompleted ''slsResults.csv'' example_parameters example_attributes example_env
                 (DataTransmissionIntervalStarted example_mac 1 0 example_env example_world))))))
       = [Perform_TXSS_TXOP 2 1]
   \<and> suMimoCompleted example_completed
   \<and> run [example_dti, example_sls] example_completed
       = Some (Inr (SLSCompleted ''slsResults.csv'' example_parameters example_attributes example_env
                     (DataTransmissionIntervalStarted example_mac 1 0 example_env
                        example_completed)))
   \<and> suMimoCompleted
        (SLSCompleted ''slsResults.csv'' example_parameters example_attributes example_env
           (DataTransmissionIntervalStarted example_mac 1 0 example_env example_completed))
   \<and> filter is_StartSuMimoBeamforming
        (issued example_completed
           (SLSCompleted ''slsResults.csv'' example_parameters example_attributes example_env
              (DataTransmissionIntervalStarted example_mac 1 0 example_env example_completed)))
       = []
   \<and> step (fst example_siso_completed) (snd example_siso_completed) example_completed
       = Some (Inr (SuMimoSisoPhaseComplete example_parameters 1 example_feedback 2 2 example_env
                      example_completed))
   \<and> suMimoCompleted
        (SuMimoSisoPhaseComplete example_parameters 1 example_feedback 2 2 example_env
           example_completed)
   \<and> issued example_completed
        (SuMimoSisoPhaseComplete example_parameters 1 example_feedback 2 2 example_env
           example_completed)
       = [StartSuMimoMimoPhase 2 1 [[(1, 3), (2, 4)]] 10 False]"
proof -
  let ?w = "SuMimoMimoPhaseComplete example_parameters 1 example_env
           (DataTransmissionIntervalStarted example_mac 1 0 example_env
             (SLSCompleted ''slsResults.csv'' example_parameters example_attributes example_env
               (SLSCompleted ''slsResults.csv'' example_parameters example_attributes example_env
                 (DataTransmissionIntervalStarted example_mac 1 0 example_env example_world))))"
  let ?w' = "SLSCompleted ''slsResults.csv'' example_parameters example_attributes example_env
              (DataTransmissionIntervalStarted example_mac 1 0 example_env example_completed)"
  let ?w'' = "SuMimoSisoPhaseComplete example_parameters 1 example_feedback 2 2 example_env
                example_completed"
  have r: "run [example_dti, example_sls, example_sls, example_dti, example_mimo_completed]
             example_world = Some (Inr ?w)"
    by (simp add: example_dti_def example_sls_def example_mimo_completed_def)
  have r': "run [example_dti, example_sls] example_completed = Some (Inr ?w')"
    by (simp add: example_dti_def example_sls_def)
  have s: "step (fst example_siso_completed) (snd example_siso_completed) example_completed
             = Some (Inr ?w'')"
    by (simp add: example_siso_completed_def)
  have c: "suMimoCompleted example_completed"
    by (simp add: example_completed_def SuMimoMimoPhaseComplete_eq)
  have f: "firstDti example_world"
    "filter is_Perform_TXSS_TXOP (requests ?w) = [Perform_TXSS_TXOP 2 1]"
    by (simp_all add: example_world_def example_parameters_def example_mac_def example_env_def
        example_attributes_def
          initial_def SLSCompleted_def Let_def print_def request_def write_line_def
        u8_def u16_def u32_def
          DataTransmissionIntervalStarted_def SuMimoMimoPhaseComplete_def Seconds_0_6_def
          MicroSeconds_def)
  have v: "useAwvs example_completed = False" "kBestCombinations example_completed = 10"
    "numberOfTxCombinationsRequested example_completed = 10"
    by (simp_all add: example_completed_def example_after_2_def example_after_1_def
          example_world_def initial_def SLSCompleted_eq SuMimoMimoPhaseComplete_eq)
  note t = training_flags_are_monotone
             [where evs = "[example_dti, example_sls, example_sls, example_dti,
                            example_mimo_completed]"
                and w = example_world and r = "Inr ?w"
                and ev = "fst example_siso_completed" and e = "snd example_siso_completed"
                and r' = "Inr ?w''"]
  note t' = training_flags_are_monotone
             [where evs = "[example_dti, example_sls]"
                and w = example_completed and r = "Inr ?w'"
                and ev = "fst example_siso_completed" and e = "snd example_siso_completed"
                and r' = "Inr ?w''"]
  from t r f have 1: "filter is_Perform_TXSS_TXOP (requests ?w) = [Perform_TXSS_TXOP 2 1]"
    by simp
  from t' r' c s have 2: "suMimoCompleted ?w'"
      "filter is_StartSuMimoBeamforming (issued example_completed ?w') = []"
      "suMimoCompleted ?w''"
      "issued example_completed ?w'' = [StartSuMimoMimoPhase 2 1 [[(1, 3), (2, 4)]] 10 False]"
    by (simp_all add: example_siso_completed_def example_parameters_def example_mac_def
          example_feedback_def v)
  from r r' s c f 1 2 show ?thesis by simp
qed

subsection \<open>C9\<close>

text \<open>
  C9: with CSV output enabled the counter \<^verbatim>\<open>beamformedLinks\<close> stays at 0 whatever
  callbacks arrive, and \<^verbatim>\<open>StartSuMimoBeamforming\<close> is never scheduled.
\<close>

theorem csv_mode_never_starts_training:
  assumes "run evs (initial True k n awvs folder ap) = Some r"
  shows "beamformedLinks (final r) = 0
         \<and> filter is_StartSuMimoBeamforming (requests (final r)) = []"
proof -
  have "csv (initial True k n awvs folder ap :: 'a world)"
       "beamformedLinks (initial True k n awvs folder ap :: 'a world) \<noteq> 2"
    by (simp_all add: initial_def)
  from run_csv_no_start [OF this assms] show ?thesis
    by (simp add: initial_def issued_def)
qed

text \<open>C9, witness: two sector sweeps in the DTI and a DTI start at 0.7 s, in CSV mode.\<close>

theorem csv_mode_never_starts_training_witness:
  "run [example_sls, example_sls, example_dti] example_csv_world
     = Some (Inr (DataTransmissionIntervalStarted example_mac 1 0 example_env
          (SLSCompleted ''slsResults.csv'' example_parameters example_attributes example_env
            (SLSCompleted ''slsResults.csv'' example_parameters example_attributes example_env
               example_csv_world))))
   \<and> beamformedLinks (DataTransmissionIntervalStarted example_mac 1 0 example_env
          (SLSCompleted ''slsResults.csv'' example_parameters example_attributes example_env
            (SLSCompleted ''slsResults.csv'' example_parameters example_attributes example_env
               example_csv_world))) = 0
   \<and> filter is_StartSuMimoBeamforming
        (requests (DataTransmissionIntervalStarted example_mac 1 0 example_env
          (SLSCompleted ''slsResults.csv'' example_parameters example_attributes example_env
            (SLSCompleted ''slsResults.csv'' example_parameters example_attributes example_env
               example_csv_world)))) = []"
proof -
  let ?w = "DataTransmissionIntervalStarted example_mac 1 0 example_env
          (SLSCompleted ''slsResults.csv'' example_parameters example_attributes example_env
            (SLSCompleted ''slsResults.csv'' example_parameters example_attributes example_env
               example_csv_world))"
  have r: "run [example_sls, example_sls, example_dti] (initial True 10 10 False ''Traces/'' 0)
             = Some (Inr ?w)"
    by (simp add: example_dti_def example_sls_def example_csv_world_def)
  from csv_mode_never_starts_training [OF r] r show ?thesis
    by (simp add: example_csv_world_def)
qed

subsection \<open>C10\<close>



end
